theory Spec2Isabelle
  imports Complex_Main
begin

section \<open>Machine integers and Go channels\<close>

text \<open>
  The pool counters \<open>curActConns\<close>, \<open>freeConns\<close>, \<open>minPoolSizeWM\<close> and
  \<open>relConnBatchSize\<close> are Go \<open>int32\<close>. They are modelled as \<open>int\<close>, and every
  arithmetic operation of the source (\<open>atomic.AddInt32\<close>, \<open>+\<close>, \<open>-\<close>) is followed by
  \<open>wrap32\<close>, the two's complement wrap-around.
\<close>

definition wrap32 :: "int \<Rightarrow> int" where
  "wrap32 x = (x + 2 ^ 31) mod 2 ^ 32 - 2 ^ 31"


text \<open>
  A buffered Go channel: the queued values (oldest first), the capacity given to
  \<open>make\<close>, and whether \<open>close\<close> has been called. The operations below are the
  non-blocking views a \<open>select\<close> has of the channel when no other goroutine is
  parked on it: a receive yields the oldest value, reports a closed and drained channel
  (\<open>ok = false\<close>), or is not ready; a send enqueues, panics on a closed channel, or is
  not ready.
\<close>

record 'a chan =
  buf :: "'a list"
  cap :: nat
  closed :: bool

datatype 'a recv_result = Received 'a | RecvClosed | RecvNotReady

datatype send_result = Sent | SendPanic | SendNotReady

definition make_chan :: "nat \<Rightarrow> 'a chan" where
  "make_chan n = \<lparr>buf = [], cap = n, closed = False\<rparr>"

definition chan_recv :: "'a chan \<Rightarrow> 'a recv_result \<times> 'a chan" where
  "chan_recv ch =
     (case buf ch of
        x # xs \<Rightarrow> (Received x, ch\<lparr>buf := xs\<rparr>)
      | [] \<Rightarrow> if closed ch then (RecvClosed, ch) else (RecvNotReady, ch))"

definition chan_send :: "'a \<Rightarrow> 'a chan \<Rightarrow> send_result \<times> 'a chan" where
  "chan_send x ch =
     (if closed ch then (SendPanic, ch)
      else if length (buf ch) < cap ch then (Sent, ch\<lparr>buf := buf ch @ [x]\<rparr>)
      else (SendNotReady, ch))"

section \<open>The connection pool\<close>

text \<open>
  Errors of the pool and of the query client, with the transport's errors: \<open>EOF\<close> is
  \<open>io.EOF\<close>, \<open>TransportError\<close> any other failure of a send or a receive,
  \<open>DialError\<close> a failure of the make-connection function, and \<open>ApplicationError\<close>
  the error built from the message embedded in a statistics response.
\<close>

datatype err =
    ErrorClosedPool
  | ErrorNoPool
  | ErrorPoolTimeout
  | ErrorProtocol
  | EOF
  | TransportError string
  | DialError string
  | ApplicationError string

text \<open>
  A \<open>connection\<close> holds a \<open>net.Conn\<close> (\<open>None\<close> is the nil interface value; a socket
  is named by a number) and a packet handle, which carries no state the pool reads.
\<close>

type_synonym sock = nat

record connection =
  conn :: "sock option"

text \<open>
  The pool. \<open>mkConn\<close> and \<open>ewma\<close> are supplied from outside (the dialer and the
  moving average are external); \<open>closedSocks\<close> records, in order, the sockets on which
  \<open>conn.Close()\<close> has been called. The pool's methods are modelled on a pool that
  exists (a non-nil receiver).
\<close>

record connectionPool =
  host :: string
  connections :: "connection chan"
  createsem :: "bool chan"
  maxPayload :: int
  timeout :: int
  availTimeout :: int
  curActConns :: int
  minPoolSizeWM :: int
  freeConns :: int
  relConnBatchSize :: int
  stopCh :: "bool chan"
  closedSocks :: "sock list"

definition newConnectionPool ::
  "string \<Rightarrow> nat \<Rightarrow> nat \<Rightarrow> int \<Rightarrow> int \<Rightarrow> int \<Rightarrow> int \<Rightarrow> int \<Rightarrow> connectionPool" where
  "newConnectionPool h poolSize poolOverflow maxPl tmo availTmo minWM relBatch =
     \<lparr>host = h,
      connections = make_chan poolSize,
      createsem = make_chan (poolSize + poolOverflow),
      maxPayload = maxPl,
      timeout = tmo,
      availTimeout = availTmo,
      curActConns = 0,
      minPoolSizeWM = minWM,
      freeConns = 0,
      relConnBatchSize = relBatch,
      stopCh = make_chan 1,
      closedSocks = []\<rparr>"

text \<open>The number of create permits held: the tokens queued in \<open>createsem\<close>.\<close>

definition permits_held :: "connectionPool \<Rightarrow> nat" where
  "permits_held cp = length (buf (createsem cp))"

text \<open>\<open>connectn.conn.Close()\<close>: the socket joins the closed ones.\<close>

definition close_conn :: "connection \<Rightarrow> connectionPool \<Rightarrow> connectionPool" where
  "close_conn connectn cp =
     (case conn connectn of
        None \<Rightarrow> cp
      | Some sk \<Rightarrow> cp\<lparr>closedSocks := closedSocks cp @ [sk]\<rparr>)"

subsection \<open>Acquisition\<close>

text \<open>
  \<open>GetWithTimeout\<close> has three \<open>select\<close> statements. The first has a \<open>default\<close>
  and is decided by the channel alone. The other two block; which of their cases fires is
  the scheduler's choice among the cases that are ready, given here as \<open>evB\<close> and
  \<open>evC\<close>. A timer case is always able to fire; a receive needs a queued connection or a
  closed channel; the send on \<open>createsem\<close> needs room. A choice of a case that is not
  ready describes no run of the call, and the model returns \<open>None\<close> for it.
  \<open>mk\<close> is what the make-connection function returns if it is called.
\<close>

datatype select_case = CaseConn | CaseSem | CaseTimer

text \<open>
  The body shared by the three branches \<open>case connectn, ok = <-cp.connections\<close>.
\<close>

definition recv_connection ::
  "connectionPool \<Rightarrow> ((err + connection) \<times> connectionPool) option" where
  "recv_connection cp =
     (case chan_recv (connections cp) of
        (Received connectn, ch) \<Rightarrow>
          Some (Inr connectn,
                cp\<lparr>connections := ch,
                   freeConns := wrap32 (freeConns cp - 1),
                   curActConns := wrap32 (curActConns cp + 1)\<rparr>)
      | (RecvClosed, ch) \<Rightarrow> Some (Inl ErrorClosedPool, cp)
      | (RecvNotReady, ch) \<Rightarrow> None)"

text \<open>The branch \<open>case cp.createsem <- true\<close> of the third select.\<close>

definition create_connection ::
  "(err + connection) \<Rightarrow> connectionPool \<Rightarrow> ((err + connection) \<times> connectionPool) option" where
  "create_connection mk cp =
     (case chan_send True (createsem cp) of
        (Sent, sem) \<Rightarrow>
          (case mk of
             Inl e \<Rightarrow> Some (Inl e, cp\<lparr>createsem := snd (chan_recv sem)\<rparr>)
           | Inr connectn \<Rightarrow>
               Some (Inr connectn,
                     cp\<lparr>createsem := sem, curActConns := wrap32 (curActConns cp + 1)\<rparr>))
      | (SendPanic, sem) \<Rightarrow> None
      | (SendNotReady, sem) \<Rightarrow> None)"

definition GetWithTimeout ::
  "select_case \<Rightarrow> select_case \<Rightarrow> (err + connection) \<Rightarrow> connectionPool
     \<Rightarrow> ((err + connection) \<times> connectionPool) option" where
  "GetWithTimeout evB evC mk cp =
     (case recv_connection cp of
        Some r \<Rightarrow> Some r
      | None \<Rightarrow>
          (case evB of
             CaseConn \<Rightarrow> recv_connection cp
           | CaseSem \<Rightarrow> None
           | CaseTimer \<Rightarrow>
               (case evC of
                  CaseConn \<Rightarrow> recv_connection cp
                | CaseSem \<Rightarrow> create_connection mk cp
                | CaseTimer \<Rightarrow> Some (Inl ErrorPoolTimeout, cp))))"

text \<open>\<open>Get\<close> is \<open>GetWithTimeout\<close> with the pool's own timeout as the duration.\<close>

definition Get ::
  "select_case \<Rightarrow> select_case \<Rightarrow> (err + connection) \<Rightarrow> connectionPool
     \<Rightarrow> ((err + connection) \<times> connectionPool) option" where
  "Get evB evC mk cp = GetWithTimeout evB evC mk cp"

subsection \<open>Return\<close>

text \<open>
  \<open>Return\<close> first defers the decrement of \<open>curActConns\<close>, which therefore runs on
  every path that leaves the function. \<open><-cp.createsem\<close> blocks while no permit is
  held: that call never returns (\<open>None\<close>) and its deferred decrement never runs. A
  send on the closed channel panics; the deferred \<open>recover\<close> closes the connection.
\<close>

definition dec_active :: "connectionPool \<Rightarrow> connectionPool" where
  "dec_active cp = cp\<lparr>curActConns := wrap32 (curActConns cp - 1)\<rparr>"

definition release_and_close :: "connection \<Rightarrow> connectionPool \<Rightarrow> connectionPool option" where
  "release_and_close connectn cp =
     (case chan_recv (createsem cp) of
        (Received b, sem) \<Rightarrow> Some (close_conn connectn (cp\<lparr>createsem := sem\<rparr>))
      | (RecvClosed, sem) \<Rightarrow> Some (close_conn connectn cp)
      | (RecvNotReady, sem) \<Rightarrow> None)"

definition Return :: "connection option \<Rightarrow> bool \<Rightarrow> connectionPool \<Rightarrow> connectionPool option" where
  "Return connectn healthy cp =
     (case connectn of
        None \<Rightarrow> Some (dec_active cp)
      | Some cn \<Rightarrow>
          if conn cn = None then Some (dec_active cp)
          else if healthy then
            (case chan_send cn (connections cp) of
               (Sent, ch) \<Rightarrow>
                 Some (dec_active
                   (cp\<lparr>connections := ch, freeConns := wrap32 (freeConns cp + 1)\<rparr>))
             | (SendNotReady, ch) \<Rightarrow> map_option dec_active (release_and_close cn cp)
             | (SendPanic, ch) \<Rightarrow> Some (dec_active (close_conn cn cp)))
          else map_option dec_active (release_and_close cn cp))"

subsection \<open>Shutdown\<close>

text \<open>
  \<open>Close\<close> sends on \<open>stopCh\<close> (blocking while the previous signal has not been
  taken), closes the idle channel and closes every connection still queued. Closing a
  closed channel panics; the deferred \<open>recover\<close> swallows the panic and the call
  returns.
\<close>

definition Close :: "connectionPool \<Rightarrow> connectionPool option" where
  "Close cp =
     (case chan_send True (stopCh cp) of
        (Sent, st) \<Rightarrow>
          (let cp1 = cp\<lparr>stopCh := st\<rparr> in
           if closed (connections cp1) then Some cp1
           else Some (fold close_conn (buf (connections cp1))
                        (cp1\<lparr>connections := (connections cp1)\<lparr>buf := [], closed := True\<rparr>\<rparr>)))
      | (SendPanic, st) \<Rightarrow> Some cp
      | (SendNotReady, st) \<Rightarrow> None)"

subsection \<open>The retention loop\<close>

text \<open>
  \<open>max\<close> of the source, on \<open>int32\<close>.
\<close>

definition max_int32 :: "int \<Rightarrow> int \<Rightarrow> int" where
  "max_int32 a b = (if a > b then a else b)"

text \<open>
  \<open>int32(avg)\<close>: Go's conversion of a \<open>float64\<close> to an integer discards the
  fraction (truncation towards zero). The rate is taken as a rational number; every
  finite \<open>float64\<close> is one. For a rate outside the \<open>int32\<close> range Go leaves the
  result to the implementation, so statements about \<open>int32_of_float\<close> assume the
  range.
\<close>

definition int32_of_float :: "rat \<Rightarrow> int" where
  "int32_of_float avg = (if 0 \<le> avg then \<lfloor>avg\<rfloor> else \<lceil>avg\<rceil>)"

text \<open>
  \<open>numConnsToRetain\<close>, with \<open>avg\<close> the value of \<open>cp.ewma.Rate()\<close>.
\<close>

definition numConnsToRetain :: "rat \<Rightarrow> connectionPool \<Rightarrow> int \<times> bool" where
  "numConnsToRetain avg cp =
     (let act = curActConns cp;
          num = max_int32 act (int32_of_float avg);
          num = max_int32 (minPoolSizeWM cp) num;
          fc = freeConns cp;
          totalConns = wrap32 (act + fc)
      in if wrap32 (totalConns - relConnBatchSize cp) \<ge> num
         then (wrap32 (totalConns - relConnBatchSize cp), True)
         else (totalConns, False))"

text \<open>
  \<open>releaseConns\<close>. The \<open>break\<close> of the \<open>default\<close> case stands inside the
  \<open>select\<close>, so it leaves the \<open>select\<close> only and the \<open>for\<close> loop goes round
  again; the \<open>break\<close> of the \<open>else\<close> leaves the loop. The loop need not end, hence
  the option: \<open>None\<close> is a call that never returns.
\<close>

partial_function (option) releaseConns :: "int \<Rightarrow> connectionPool \<Rightarrow> connectionPool option" where
  "releaseConns numRetConns cp =
     (let fc = freeConns cp;
          act = curActConns cp;
          totalConns = wrap32 (act + fc)
      in if totalConns > numRetConns \<and> fc > 0
         then (case chan_recv (connections cp) of
                 (Received c, ch) \<Rightarrow>
                   releaseConns numRetConns
                     (close_conn c
                        (cp\<lparr>connections := ch, freeConns := wrap32 (freeConns cp - 1)\<rparr>))
               | (RecvClosed, ch) \<Rightarrow> Some cp
               | (RecvNotReady, ch) \<Rightarrow> releaseConns numRetConns cp)
         else Some cp)"

text \<open>
  One round of the loop of \<open>releaseConnsRoutine\<close>, after its one-second sleep. The
  moving average is the external \<open>go-metrics\<close> EWMA: its three operations are
  parameters, its state is carried with the loop counters \<open>i\<close> and \<open>j\<close>.
  \<open>Stopped\<close> is the \<open>return\<close> on the stop signal.
\<close>

definition CONN_RELEASE_INTERVAL :: nat where
  "CONN_RELEASE_INTERVAL = 5"

definition CONN_COUNT_LOG_INTERVAL :: nat where
  "CONN_COUNT_LOG_INTERVAL = 60"

record 'e ewma_ops =
  Update :: "int \<Rightarrow> 'e \<Rightarrow> 'e"
  Tick :: "'e \<Rightarrow> 'e"
  Rate :: "'e \<Rightarrow> rat"

record 'e routine =
  loop_i :: nat
  loop_j :: nat
  ewma :: "'e"

datatype 'e round_result =
    Stopped connectionPool
  | Continues "'e routine" connectionPool

definition releaseConnsRoutine_round ::
  "'e ewma_ops \<Rightarrow> 'e routine \<Rightarrow> connectionPool \<Rightarrow> 'e round_result option" where
  "releaseConnsRoutine_round ops r cp =
     (case chan_recv (stopCh cp) of
        (Received b, st) \<Rightarrow> Some (Stopped (cp\<lparr>stopCh := st\<rparr>))
      | (RecvClosed, st) \<Rightarrow> Some (Stopped cp)
      | (RecvNotReady, st) \<Rightarrow>
          (let act = curActConns cp;
               e1 = Update ops act (ewma r);
               next = (\<lambda>e cp'.
                  Continues
                    (r\<lparr>loop_i := (loop_i r + 1) mod CONN_RELEASE_INTERVAL,
                       loop_j := (loop_j r + 1) mod CONN_COUNT_LOG_INTERVAL,
                       ewma := e\<rparr>) cp')
           in if loop_i r = CONN_RELEASE_INTERVAL - 1
              then (let e2 = Tick ops e1;
                        (numRetConns, needToFreeConns) = numConnsToRetain (Rate ops e2) cp
                    in if needToFreeConns
                       then map_option (next e2) (releaseConns numRetConns cp)
                       else Some (next e2 cp))
              else Some (next e1 cp)))"

text \<open>The routine before its first round: \<open>i := 0\<close>, \<open>j := 0\<close>.\<close>

definition routine_start :: "'e \<Rightarrow> 'e routine" where
  "routine_start e = \<lparr>loop_i = 0, loop_j = 0, ewma = e\<rparr>"

section \<open>The query client\<close>

text \<open>
  The messages a receive can decode. The client tells them apart by type only:
  \<open>StatisticsResponse\<close> carries its optional embedded error message and its
  statistics, \<open>StreamEndResponse\<close> is the end-of-stream marker, \<open>ResponseStream\<close>
  is a page of scan results, \<open>OtherMessage\<close> stands for any other decoded type.
\<close>

type_synonym IndexStatistics = string

datatype frame =
    StatisticsResponse "string option" "IndexStatistics option"
  | StreamEndResponse
  | ResponseStream string
  | OtherMessage nat

text \<open>
  The transport is external. \<open>pkt.Send\<close> returns an error or nil; \<open>pkt.Receive\<close>
  returns a decoded message or an error (and then no message). A \<open>wire\<close> fixes what
  the \<open>n\<close>-th send and the \<open>n\<close>-th receive on the borrowed connection will return;
  a \<open>session\<close> counts the sends and receives made so far and lists the arguments with
  which the response handler has been called.
\<close>

datatype received = RecvFail err | RecvFrame frame

record wire =
  sendOutcome :: "nat \<Rightarrow> err option"
  recvOutcome :: "nat \<Rightarrow> received"

datatype cb_arg = CbErr err | CbFrame frame

record session =
  nsent :: nat
  nrecv :: nat
  calls :: "cb_arg list"

definition session_start :: session where
  "session_start = \<lparr>nsent = 0, nrecv = 0, calls = []\<rparr>"

definition sendRequest :: "wire \<Rightarrow> session \<Rightarrow> err option \<times> session" where
  "sendRequest w s = (sendOutcome w (nsent s), s\<lparr>nsent := nsent s + 1\<rparr>)"

definition Receive :: "wire \<Rightarrow> session \<Rightarrow> received \<times> session" where
  "Receive w s = (recvOutcome w (nrecv s), s\<lparr>nrecv := nrecv s + 1\<rparr>)"

text \<open>
  A \<open>ResponseHandler\<close> may keep state between its calls; it is modelled as a function
  of all the arguments it has been called with so far, the current one last.
\<close>

type_synonym ResponseHandler = "cb_arg list \<Rightarrow> bool"

definition call_handler :: "ResponseHandler \<Rightarrow> cb_arg \<Rightarrow> session \<Rightarrow> bool \<times> session" where
  "call_handler callb a s = (callb (calls s @ [a]), s\<lparr>calls := calls s @ [a]\<rparr>)"

text \<open>What a client call does: it returns a value or panics.\<close>

datatype 'a outcome = Returns 'a | Panics

text \<open>
  A run of a client call: its outcome; the value of the local variable \<open>healthy\<close>
  when the function is left (\<open>None\<close> if it is left before the variable exists); the
  \<open>healthy\<close> argument the deferred \<open>c.pool.Return\<close> is called with (\<open>None\<close> if it
  is not called); the handler calls; the pool afterwards.
\<close>

record 'a client_run =
  result :: "'a outcome"
  healthy_var :: "bool option"
  returned_healthy :: "bool option"
  handler_calls :: "cb_arg list"
  pool_after :: connectionPool

subsection \<open>Statistics\<close>

text \<open>
  The part of \<open>Statistics\<close> after the \<open>defer\<close> statement, as a function of the
  variable \<open>healthy\<close>: it gives the outcome and the final value of the variable. The
  error of the second receive is assigned to \<open>err\<close> and not looked at: only the type
  of \<open>endResp\<close> is tested, and a failed receive delivers no message. The type
  assertion \<open>resp.(*protobuf.StatisticsResponse)\<close> has no \<open>ok\<close> result, so it
  panics on any other message.
\<close>

definition Statistics_exchange ::
  "wire \<Rightarrow> bool \<Rightarrow> (IndexStatistics option \<times> err option) outcome \<times> bool" where
  "Statistics_exchange w healthy =
     (case sendRequest w session_start of
        (Some e, s1) \<Rightarrow> (Returns (None, Some e), False)
      | (None, s1) \<Rightarrow>
          (case Receive w s1 of
             (RecvFail e, s2) \<Rightarrow> (Returns (None, Some e), False)
           | (RecvFrame resp, s2) \<Rightarrow>
               (case Receive w s2 of
                  (RecvFrame StreamEndResponse, s3) \<Rightarrow>
                    (case resp of
                       StatisticsResponse (Some msg) stats \<Rightarrow>
                         (Returns (None, Some (ApplicationError msg)), healthy)
                     | StatisticsResponse None stats \<Rightarrow> (Returns (stats, None), healthy)
                     | _ \<Rightarrow> (Panics, healthy))
                | (_, s3) \<Rightarrow> (Returns (None, Some ErrorProtocol), healthy))))"

text \<open>
  \<open>Statistics\<close>. Go evaluates the arguments of a deferred call when the \<open>defer\<close>
  statement is executed: \<open>defer c.pool.Return(connectn, healthy)\<close> binds the value
  \<open>healthy\<close> has at that moment, and the later assignments to the variable do not
  reach the call. The deferred call runs on a return and on a panic alike.
\<close>

definition Statistics ::
  "select_case \<Rightarrow> select_case \<Rightarrow> (err + connection) \<Rightarrow> wire \<Rightarrow> connectionPool
     \<Rightarrow> (IndexStatistics option \<times> err option) client_run option" where
  "Statistics evB evC mk w cp =
     (case Get evB evC mk cp of
        None \<Rightarrow> None
      | Some (Inl e, cp1) \<Rightarrow>
          Some \<lparr>result = Returns (None, Some e), healthy_var = None,
                returned_healthy = None, handler_calls = [], pool_after = cp1\<rparr>
      | Some (Inr connectn, cp1) \<Rightarrow>
          (let healthy = True;
               deferred_arg = healthy;
               (res, healthy) = Statistics_exchange w healthy
           in map_option
                (\<lambda>cp2. \<lparr>result = res, healthy_var = Some healthy,
                         returned_healthy = Some deferred_arg, handler_calls = [],
                         pool_after = cp2\<rparr>)
                (Return (Some connectn) deferred_arg cp1)))"

subsection \<open>Scan and ScanAll\<close>

text \<open>
  The flushing loop of \<open>closeStream\<close>: receive until the end-of-stream marker or an
  error (\<open>io.EOF\<close> included) comes. It may go on for ever.
\<close>

partial_function (option) closeStream_flush :: "wire \<Rightarrow> session \<Rightarrow> (err option \<times> session) option" where
  "closeStream_flush w s =
     (case Receive w s of
        (RecvFail e, s1) \<Rightarrow> Some (Some e, s1)
      | (RecvFrame resp, s1) \<Rightarrow>
          if resp = StreamEndResponse then Some (None, s1) else closeStream_flush w s1)"

definition closeStream :: "wire \<Rightarrow> session \<Rightarrow> (err option \<times> session) option" where
  "closeStream w s =
     (case sendRequest w s of
        (Some e, s1) \<Rightarrow> Some (Some e, s1)
      | (None, s1) \<Rightarrow> closeStream_flush w s1)"

text \<open>\<open>streamResponse\<close> returns \<open>(cont, healthy, err)\<close>.\<close>

definition streamResponse ::
  "wire \<Rightarrow> ResponseHandler \<Rightarrow> session \<Rightarrow> ((bool \<times> bool \<times> err option) \<times> session) option" where
  "streamResponse w callb s =
     (case Receive w s of
        (RecvFail e, s1) \<Rightarrow>
          (let (b, s2) = call_handler callb (CbErr e) s1
           in Some ((False, False, Some e), s2))
      | (RecvFrame resp, s1) \<Rightarrow>
          if resp = StreamEndResponse
          then (let (b, s2) = call_handler callb (CbFrame resp) s1
                in Some ((False, True, None), s2))
          else (let (cont, s2) = call_handler callb (CbFrame resp) s1;
                    healthy = True;
                    finish = False
                in if cont = False \<and> healthy = True \<and> finish = False
                   then map_option (\<lambda>(e, s3). ((cont, healthy, e), s3)) (closeStream w s2)
                   else Some ((cont, healthy, None), s2)))"

text \<open>
  The loop \<open>for cont { cont, healthy, err = c.streamResponse(...) }\<close>: it yields the
  last \<open>healthy\<close> and \<open>err\<close>.
\<close>

partial_function (option) stream_loop ::
  "wire \<Rightarrow> ResponseHandler \<Rightarrow> session \<Rightarrow> ((bool \<times> err option) \<times> session) option" where
  "stream_loop w callb s =
     (case streamResponse w callb s of
        None \<Rightarrow> None
      | Some ((cont, healthy, e), s1) \<Rightarrow>
          if cont then stream_loop w callb s1 else Some ((healthy, e), s1))"

definition Scan ::
  "select_case \<Rightarrow> select_case \<Rightarrow> (err + connection) \<Rightarrow> wire \<Rightarrow> ResponseHandler \<Rightarrow> connectionPool
     \<Rightarrow> (err option) client_run option" where
  "Scan evB evC mk w callb cp =
     (case Get evB evC mk cp of
        None \<Rightarrow> None
      | Some (Inl e, cp1) \<Rightarrow>
          Some \<lparr>result = Returns (Some e), healthy_var = None,
                returned_healthy = None, handler_calls = [], pool_after = cp1\<rparr>
      | Some (Inr connectn, cp1) \<Rightarrow>
          (let healthy = True;
               deferred_arg = healthy
           in case sendRequest w session_start of
                (Some e, s1) \<Rightarrow>
                  map_option
                    (\<lambda>cp2. \<lparr>result = Returns (Some e), healthy_var = Some False,
                             returned_healthy = Some deferred_arg, handler_calls = calls s1,
                             pool_after = cp2\<rparr>)
                    (Return (Some connectn) deferred_arg cp1)
              | (None, s1) \<Rightarrow>
                  (case stream_loop w callb s1 of
                     None \<Rightarrow> None
                   | Some ((healthy, e), s2) \<Rightarrow>
                       map_option
                         (\<lambda>cp2. \<lparr>result = Returns None, healthy_var = Some healthy,
                                  returned_healthy = Some deferred_arg,
                                  handler_calls = calls s2, pool_after = cp2\<rparr>)
                         (Return (Some connectn) deferred_arg cp1))))"

definition ScanAll ::
  "select_case \<Rightarrow> select_case \<Rightarrow> (err + connection) \<Rightarrow> wire \<Rightarrow> ResponseHandler \<Rightarrow> connectionPool
     \<Rightarrow> (err option) client_run option" where
  "ScanAll evB evC mk w callb cp =
     (case Get evB evC mk cp of
        None \<Rightarrow> None
      | Some (Inl e, cp1) \<Rightarrow>
          Some \<lparr>result = Returns (Some e), healthy_var = None,
                returned_healthy = None, handler_calls = [], pool_after = cp1\<rparr>
      | Some (Inr connectn, cp1) \<Rightarrow>
          (let healthy = True;
               deferred_arg = healthy
           in case sendRequest w session_start of
                (Some e, s1) \<Rightarrow>
                  map_option
                    (\<lambda>cp2. \<lparr>result = Returns (Some e), healthy_var = Some False,
                             returned_healthy = Some deferred_arg, handler_calls = calls s1,
                             pool_after = cp2\<rparr>)
                    (Return (Some connectn) deferred_arg cp1)
              | (None, s1) \<Rightarrow>
                  (case stream_loop w callb s1 of
                     None \<Rightarrow> None
                   | Some ((healthy, e), s2) \<Rightarrow>
                       map_option
                         (\<lambda>cp2. \<lparr>result = Returns None, healthy_var = Some healthy,
                                  returned_healthy = Some deferred_arg,
                                  handler_calls = calls s2, pool_after = cp2\<rparr>)
                         (Return (Some connectn) deferred_arg cp1))))"

subsection \<open>What the handler is told\<close>

text \<open>
  The argument the handler gets for the outcome of a receive in \<open>streamResponse\<close>:
  \<open>callb(err)\<close> for a failed receive, \<open>callb(resp)\<close> for a frame.
\<close>

definition handler_arg :: "received \<Rightarrow> cb_arg" where
  "handler_arg r = (case r of RecvFail e \<Rightarrow> CbErr e | RecvFrame f \<Rightarrow> CbFrame f)"

text \<open>
  The state of a session at the head of the response loop: every receive made so far was
  handed to the handler, in order, each was a frame other than the end-of-stream marker,
  and the handler asked for more each time.
\<close>

definition loop_in_step :: "wire \<Rightarrow> ResponseHandler \<Rightarrow> session \<Rightarrow> bool" where
  "loop_in_step w callb s \<longleftrightarrow>
     nrecv s = length (calls s)
     \<and> calls s = map (\<lambda>i. handler_arg (recvOutcome w i)) [0..<length (calls s)]
     \<and> (\<forall>i<length (calls s).
           (\<exists>f. recvOutcome w i = RecvFrame f \<and> f \<noteq> StreamEndResponse)
           \<and> callb (take (Suc i) (calls s)))"

text \<open>
  What the handler has been told when the response loop has ended with the result
  \<open>r\<close>: the outcomes of the receives of the loop, in order, and nothing else; all but
  the last were frames on which the handler asked for more; the last is a failed receive,
  the end-of-stream marker, or a frame on which the handler asked to stop; and
  \<open>healthy\<close> is false exactly when the last is a failed receive.
\<close>

definition loop_report ::
  "wire \<Rightarrow> ResponseHandler \<Rightarrow> (bool \<times> err option) \<times> session \<Rightarrow> bool" where
  "loop_report w callb r \<longleftrightarrow>
     calls (snd r) \<noteq> []
     \<and> calls (snd r) = map (\<lambda>i. handler_arg (recvOutcome w i)) [0..<length (calls (snd r))]
     \<and> (\<forall>i. Suc i < length (calls (snd r)) \<longrightarrow>
           (\<exists>f. recvOutcome w i = RecvFrame f \<and> f \<noteq> StreamEndResponse)
           \<and> callb (take (Suc i) (calls (snd r))))
     \<and> ((\<exists>e. last (calls (snd r)) = CbErr e)
        \<or> last (calls (snd r)) = CbFrame StreamEndResponse
        \<or> \<not> callb (calls (snd r)))
     \<and> (\<not> fst (fst r) \<longleftrightarrow> (\<exists>e. last (calls (snd r)) = CbErr e))"

section \<open>The running pool\<close>

text \<open>
  The pool is shared by goroutines: the callers of \<open>GetWithTimeout\<close>, \<open>Return\<close>
  and \<open>Close\<close>, and \<open>releaseConnsRoutine\<close>, which \<open>newConnectionPool\<close> starts.
  A goroutine is at a point of its code, with the values of its local variables. The
  points are those between two accesses to the shared pool: a \<open>select\<close> or a channel
  operation, an \<open>atomic.LoadInt32\<close>, an \<open>atomic.AddInt32\<close>.

  \<^item> \<open>Get_short\<close>, \<open>Get_avail1\<close>, \<open>Get_avail2\<close>: before the first, second and
    third \<open>select\<close> of \<open>GetWithTimeout\<close>;
  \<^item> \<open>Get_took c\<close>: \<open>c\<close> received from \<open>cp.connections\<close>, before
    \<open>atomic.AddInt32(&cp.freeConns, -1)\<close>; \<open>Get_counted c\<close>: before
    \<open>atomic.AddInt32(&cp.curActConns, 1)\<close>;
  \<^item> \<open>Get_permit\<close>: \<open>cp.createsem <- true\<close> done, before \<open>cp.mkConn\<close>;
    \<open>Get_dial_failed e\<close>: before \<open><-cp.createsem\<close>; \<open>Get_dialled c\<close>: before
    \<open>atomic.AddInt32(&cp.curActConns, 1)\<close>;
  \<^item> \<open>Get_error e\<close>: the acquisition has returned the error \<open>e\<close>;
    \<open>Holding c\<close>: it has returned \<open>c\<close>, which the caller holds;
  \<^item> \<open>Ret_start connectn healthy\<close>: \<open>Return(connectn, healthy)\<close> called, the
    decrement of \<open>curActConns\<close> deferred; \<open>Ret_deposited\<close>: the connection sent to
    \<open>cp.connections\<close>, before \<open>atomic.AddInt32(&cp.freeConns, 1)\<close>;
    \<open>Ret_release c\<close>: before \<open><-cp.createsem\<close>; \<open>Ret_close c\<close>: before
    \<open>connectn.conn.Close()\<close>; \<open>Ret_dec\<close>: before the deferred
    \<open>atomic.AddInt32(&cp.curActConns, -1)\<close>;
  \<^item> \<open>Close_start\<close>: before \<open>cp.stopCh <- true\<close>; \<open>Close_signalled\<close>: before
    \<open>close(cp.connections)\<close>; \<open>Close_drain\<close>: in the \<open>range\<close> loop;
  \<^item> \<open>Rt_top r\<close>: the routine at its \<open>time.Sleep\<close>, with \<open>i\<close>, \<open>j\<close> and the
    moving average in \<open>r\<close>; \<open>Rt_sample r\<close>: the \<open>default\<close> case taken, before the
    load of \<open>curActConns\<close>; \<open>Rt_retain_act r\<close> and \<open>Rt_retain_free r act\<close>: in
    \<open>numConnsToRetain\<close>, before the load of \<open>curActConns\<close> and of \<open>freeConns\<close>;
    \<open>Rt_release r n\<close>: at the head of the loop of \<open>releaseConns(n)\<close>, before the load
    of \<open>freeConns\<close>; \<open>Rt_release_act r n fc\<close>: before the load of \<open>curActConns\<close>;
    \<open>Rt_release_select r n\<close>: before the \<open>select\<close>; \<open>Rt_release_got r n c\<close>:
    \<open>c\<close> received, before \<open>atomic.AddInt32(&cp.freeConns, -1)\<close>;
  \<^item> \<open>Finished\<close>: the call has returned.
\<close>

datatype 'e goroutine =
    Get_short
  | Get_avail1
  | Get_avail2
  | Get_took connection
  | Get_counted connection
  | Get_permit
  | Get_dial_failed err
  | Get_dialled connection
  | Get_error err
  | Holding connection
  | Ret_start "connection option" bool
  | Ret_deposited
  | Ret_release connection
  | Ret_close connection
  | Ret_dec
  | Finished
  | Close_start
  | Close_signalled
  | Close_drain
  | Rt_top "'e routine"
  | Rt_sample "'e routine"
  | Rt_retain_act "'e routine"
  | Rt_retain_free "'e routine" int
  | Rt_release "'e routine" int
  | Rt_release_act "'e routine" int int
  | Rt_release_select "'e routine" int
  | Rt_release_got "'e routine" int connection

text \<open>The end of a round of the routine: \<open>i\<close> and \<open>j\<close> advance.\<close>

definition next_round :: "'e routine \<Rightarrow> 'e routine" where
  "next_round r =
     r\<lparr>loop_i := (loop_i r + 1) mod CONN_RELEASE_INTERVAL,
       loop_j := (loop_j r + 1) mod CONN_COUNT_LOG_INTERVAL\<rparr>"

text \<open>
  One step of one goroutine: \<open>gstep ops cp g cp' g'\<close> when the goroutine at point
  \<open>g\<close> can execute its next statement on the pool \<open>cp\<close>, which leaves the pool
  \<open>cp'\<close> and the goroutine at \<open>g'\<close>. A goroutine with no step is blocked: a
  \<open>Return\<close> at \<open><-cp.createsem\<close> with no permit queued, a \<open>Close\<close> at
  \<open>cp.stopCh <- true\<close> with the signal of an earlier \<open>Close\<close> still queued. The
  timers of \<open>GetWithTimeout\<close> may fire at any moment, and \<open>cp.mkConn\<close> may fail with
  any error or deliver any connection. The caller of \<open>Return\<close> hands back the
  connection it holds, with the flag of its choice. A send on the closed idle channel
  panics; \<open>Return\<close> recovers and closes the socket. \<open>close\<close> of the closed channel
  panics; \<open>Close\<close> recovers and returns.
\<close>

inductive gstep ::
  "'e ewma_ops \<Rightarrow> connectionPool \<Rightarrow> 'e goroutine \<Rightarrow> connectionPool \<Rightarrow> 'e goroutine \<Rightarrow> bool"
  for ops :: "'e ewma_ops" where
  short_recv:
    "chan_recv (connections cp) = (Received c, ch) \<Longrightarrow>
     gstep ops cp Get_short (cp\<lparr>connections := ch\<rparr>) (Get_took c)"
| short_closed:
    "chan_recv (connections cp) = (RecvClosed, ch) \<Longrightarrow>
     gstep ops cp Get_short cp (Get_error ErrorClosedPool)"
| short_default:
    "chan_recv (connections cp) = (RecvNotReady, ch) \<Longrightarrow>
     gstep ops cp Get_short cp Get_avail1"
| avail1_recv:
    "chan_recv (connections cp) = (Received c, ch) \<Longrightarrow>
     gstep ops cp Get_avail1 (cp\<lparr>connections := ch\<rparr>) (Get_took c)"
| avail1_closed:
    "chan_recv (connections cp) = (RecvClosed, ch) \<Longrightarrow>
     gstep ops cp Get_avail1 cp (Get_error ErrorClosedPool)"
| avail1_timer:
    "gstep ops cp Get_avail1 cp Get_avail2"
| avail2_recv:
    "chan_recv (connections cp) = (Received c, ch) \<Longrightarrow>
     gstep ops cp Get_avail2 (cp\<lparr>connections := ch\<rparr>) (Get_took c)"
| avail2_closed:
    "chan_recv (connections cp) = (RecvClosed, ch) \<Longrightarrow>
     gstep ops cp Get_avail2 cp (Get_error ErrorClosedPool)"
| avail2_sem:
    "chan_send True (createsem cp) = (Sent, sem) \<Longrightarrow>
     gstep ops cp Get_avail2 (cp\<lparr>createsem := sem\<rparr>) Get_permit"
| avail2_timer:
    "gstep ops cp Get_avail2 cp (Get_error ErrorPoolTimeout)"
| took_counts_free:
    "gstep ops cp (Get_took c) (cp\<lparr>freeConns := wrap32 (freeConns cp - 1)\<rparr>) (Get_counted c)"
| took_counts_active:
    "gstep ops cp (Get_counted c) (cp\<lparr>curActConns := wrap32 (curActConns cp + 1)\<rparr>) (Holding c)"
| dial_fails:
    "gstep ops cp Get_permit cp (Get_dial_failed e)"
| dial_succeeds:
    "gstep ops cp Get_permit cp (Get_dialled c)"
| dial_failed_releases:
    "chan_recv (createsem cp) = (Received b, sem) \<Longrightarrow>
     gstep ops cp (Get_dial_failed e) (cp\<lparr>createsem := sem\<rparr>) (Get_error e)"
| dialled_counts_active:
    "gstep ops cp (Get_dialled c) (cp\<lparr>curActConns := wrap32 (curActConns cp + 1)\<rparr>) (Holding c)"
| return_called:
    "gstep ops cp (Holding c) cp (Ret_start (Some c) healthy)"
| return_nil:
    "connectn = None \<or> (\<exists>cn. connectn = Some cn \<and> conn cn = None) \<Longrightarrow>
     gstep ops cp (Ret_start connectn healthy) cp Ret_dec"
| return_deposits:
    "conn cn \<noteq> None \<Longrightarrow> chan_send cn (connections cp) = (Sent, ch) \<Longrightarrow>
     gstep ops cp (Ret_start (Some cn) True) (cp\<lparr>connections := ch\<rparr>) Ret_deposited"
| return_overflows:
    "conn cn \<noteq> None \<Longrightarrow> chan_send cn (connections cp) = (SendNotReady, ch) \<Longrightarrow>
     gstep ops cp (Ret_start (Some cn) True) cp (Ret_release cn)"
| return_panics:
    "conn cn \<noteq> None \<Longrightarrow> chan_send cn (connections cp) = (SendPanic, ch) \<Longrightarrow>
     gstep ops cp (Ret_start (Some cn) True) (close_conn cn cp) Ret_dec"
| return_unhealthy:
    "conn cn \<noteq> None \<Longrightarrow>
     gstep ops cp (Ret_start (Some cn) False) cp (Ret_release cn)"
| deposited_counts_free:
    "gstep ops cp Ret_deposited (cp\<lparr>freeConns := wrap32 (freeConns cp + 1)\<rparr>) Ret_dec"
| release_permit:
    "chan_recv (createsem cp) = (Received b, sem) \<Longrightarrow>
     gstep ops cp (Ret_release cn) (cp\<lparr>createsem := sem\<rparr>) (Ret_close cn)"
| release_closed:
    "chan_recv (createsem cp) = (RecvClosed, sem) \<Longrightarrow>
     gstep ops cp (Ret_release cn) cp (Ret_close cn)"
| release_closes:
    "gstep ops cp (Ret_close cn) (close_conn cn cp) Ret_dec"
| return_decrements:
    "gstep ops cp Ret_dec (dec_active cp) Finished"
| close_signals:
    "chan_send True (stopCh cp) = (Sent, st) \<Longrightarrow>
     gstep ops cp Close_start (cp\<lparr>stopCh := st\<rparr>) Close_signalled"
| close_again:
    "closed (connections cp) \<Longrightarrow>
     gstep ops cp Close_signalled cp Finished"
| close_channel:
    "\<not> closed (connections cp) \<Longrightarrow>
     gstep ops cp Close_signalled
       (cp\<lparr>connections := (connections cp)\<lparr>closed := True\<rparr>\<rparr>) Close_drain"
| drain_one:
    "chan_recv (connections cp) = (Received c, ch) \<Longrightarrow>
     gstep ops cp Close_drain (close_conn c (cp\<lparr>connections := ch\<rparr>)) Close_drain"
| drain_done:
    "chan_recv (connections cp) = (RecvClosed, ch) \<Longrightarrow>
     gstep ops cp Close_drain cp Finished"
| routine_stops:
    "chan_recv (stopCh cp) = (Received b, st) \<Longrightarrow>
     gstep ops cp (Rt_top r) (cp\<lparr>stopCh := st\<rparr>) Finished"
| routine_runs:
    "chan_recv (stopCh cp) = (RecvNotReady, st) \<Longrightarrow>
     gstep ops cp (Rt_top r) cp (Rt_sample r)"
| routine_samples:
    "loop_i r \<noteq> CONN_RELEASE_INTERVAL - 1 \<Longrightarrow>
     gstep ops cp (Rt_sample r) cp
       (Rt_top (next_round (r\<lparr>ewma := Update ops (curActConns cp) (ewma r)\<rparr>)))"
| routine_ticks:
    "loop_i r = CONN_RELEASE_INTERVAL - 1 \<Longrightarrow>
     gstep ops cp (Rt_sample r) cp
       (Rt_retain_act (r\<lparr>ewma := Tick ops (Update ops (curActConns cp) (ewma r))\<rparr>))"
| retain_loads_active:
    "gstep ops cp (Rt_retain_act r) cp (Rt_retain_free r (curActConns cp))"
| retain_frees:
    "numConnsToRetain (Rate ops (ewma r)) (cp\<lparr>curActConns := act\<rparr>) = (n, True) \<Longrightarrow>
     gstep ops cp (Rt_retain_free r act) cp (Rt_release r n)"
| retain_keeps:
    "numConnsToRetain (Rate ops (ewma r)) (cp\<lparr>curActConns := act\<rparr>) = (n, False) \<Longrightarrow>
     gstep ops cp (Rt_retain_free r act) cp (Rt_top (next_round r))"
| release_loads_free:
    "gstep ops cp (Rt_release r n) cp (Rt_release_act r n (freeConns cp))"
| release_goes_on:
    "n < wrap32 (curActConns cp + fc) \<and> 0 < fc \<Longrightarrow>
     gstep ops cp (Rt_release_act r n fc) cp (Rt_release_select r n)"
| release_ends:
    "\<not> (n < wrap32 (curActConns cp + fc) \<and> 0 < fc) \<Longrightarrow>
     gstep ops cp (Rt_release_act r n fc) cp (Rt_top (next_round r))"
| release_recv:
    "chan_recv (connections cp) = (Received c, ch) \<Longrightarrow>
     gstep ops cp (Rt_release_select r n) (cp\<lparr>connections := ch\<rparr>) (Rt_release_got r n c)"
| release_pool_closed:
    "chan_recv (connections cp) = (RecvClosed, ch) \<Longrightarrow>
     gstep ops cp (Rt_release_select r n) cp (Rt_top (next_round r))"
| release_default:
    "chan_recv (connections cp) = (RecvNotReady, ch) \<Longrightarrow>
     gstep ops cp (Rt_release_select r n) cp (Rt_release r n)"
| release_got:
    "gstep ops cp (Rt_release_got r n c)
       (close_conn c (cp\<lparr>freeConns := wrap32 (freeConns cp - 1)\<rparr>)) (Rt_release r n)"

text \<open>
  The program: the pool and the goroutines that use it. It starts with the pool
  \<open>newConnectionPool\<close> builds and the routine it spawns; callers arrive (at most
  \<open>maxprocs\<close> goroutines at a time), any goroutine that can step may be the next to
  step, and a goroutine whose call has returned without a connection leaves. The counters
  are \<open>int32\<close> while the capacities are \<open>int\<close>: the pool is taken to be built with
  capacities such that \<open>poolSize + poolOverflow + maxprocs\<close> fits an \<open>int32\<close>.
\<close>

record 'e world =
  pool :: connectionPool
  procs :: "'e goroutine list"

inductive running ::
  "'e ewma_ops \<Rightarrow> nat \<Rightarrow> nat \<Rightarrow> nat \<Rightarrow> 'e world \<Rightarrow> bool"
  for ops :: "'e ewma_ops" and poolSize :: nat and poolOverflow :: nat and maxprocs :: nat where
  started:
    "int poolSize + int poolOverflow + int maxprocs < 2 ^ 31 \<Longrightarrow> 0 < maxprocs \<Longrightarrow>
     running ops poolSize poolOverflow maxprocs
       \<lparr>pool = newConnectionPool h poolSize poolOverflow maxPl tmo availTmo minWM relBatch,
        procs = [Rt_top (routine_start e)]\<rparr>"
| get_called:
    "running ops poolSize poolOverflow maxprocs w \<Longrightarrow> length (procs w) < maxprocs \<Longrightarrow>
     running ops poolSize poolOverflow maxprocs (w\<lparr>procs := procs w @ [Get_short]\<rparr>)"
| close_called:
    "running ops poolSize poolOverflow maxprocs w \<Longrightarrow> length (procs w) < maxprocs \<Longrightarrow>
     running ops poolSize poolOverflow maxprocs (w\<lparr>procs := procs w @ [Close_start]\<rparr>)"
| moves:
    "running ops poolSize poolOverflow maxprocs w \<Longrightarrow> procs w = ps @ g # qs \<Longrightarrow>
     gstep ops (pool w) g cp' g' \<Longrightarrow>
     running ops poolSize poolOverflow maxprocs \<lparr>pool = cp', procs = ps @ g' # qs\<rparr>"
| leaves:
    "running ops poolSize poolOverflow maxprocs w \<Longrightarrow> procs w = ps @ g # qs \<Longrightarrow>
     g = Finished \<or> (\<exists>e. g = Get_error e) \<Longrightarrow>
     running ops poolSize poolOverflow maxprocs (w\<lparr>procs := ps @ qs\<rparr>)"


section \<open>Pool states\<close>








text \<open>
  The states in which \<open>releaseConns numRetConns\<close> takes the \<open>default\<close> case of
  its \<open>select\<close>: the counters ask for a release, and the open idle channel has nothing
  queued.
\<close>

definition no_idle_available :: "int \<Rightarrow> connectionPool \<Rightarrow> bool" where
  "no_idle_available numRetConns cp \<longleftrightarrow>
     numRetConns < wrap32 (curActConns cp + freeConns cp)
     \<and> 0 < freeConns cp
     \<and> buf (connections cp) = []
     \<and> \<not> closed (connections cp)"

section \<open>The retention target in the words of the specification\<close>



section \<open>Example states\<close>

text \<open>
  A pool of size 1 with overflow 1, retention floor 0 and release batch 1, followed
  through an acquisition that dials, a healthy return, and a shrink.
\<close>

definition ex_conn :: connection where
  "ex_conn = \<lparr>conn = Some 7\<rparr>"

definition ex_pool :: connectionPool where
  "ex_pool = newConnectionPool ''127.0.0.1:9101'' 1 1 1024 100 1 0 1"

definition ex_pool_borrowed :: connectionPool where
  "ex_pool_borrowed =
     ex_pool\<lparr>createsem := \<lparr>buf = [True], cap = 2, closed = False\<rparr>, curActConns := 1\<rparr>"

definition ex_pool_idle :: connectionPool where
  "ex_pool_idle =
     ex_pool_borrowed\<lparr>connections := \<lparr>buf = [ex_conn], cap = 1, closed = False\<rparr>,
                       freeConns := 1, curActConns := 0\<rparr>"

definition ex_pool_shrunk :: connectionPool where
  "ex_pool_shrunk =
     ex_pool_idle\<lparr>connections := \<lparr>buf = [], cap = 1, closed = False\<rparr>,
                   freeConns := 0, closedSocks := [7]\<rparr>"

text \<open>The same pool with both permits taken by borrowed connections.\<close>

definition ex_pool_full :: connectionPool where
  "ex_pool_full =
     ex_pool\<lparr>createsem := \<lparr>buf = [True, True], cap = 2, closed = False\<rparr>, curActConns := 2\<rparr>"

text \<open>
  The pool \<open>ex_pool_borrowed\<close> after \<open>Close\<close>: the stop signal queued, the idle
  channel closed.
\<close>

definition ex_pool_shut :: connectionPool where
  "ex_pool_shut =
     ex_pool_borrowed\<lparr>connections := \<lparr>buf = [], cap = 1, closed = True\<rparr>,
                       stopCh := \<lparr>buf = [True], cap = 1, closed = False\<rparr>\<rparr>"




text \<open>
  The state inside an acquisition from \<open>ex_pool_idle\<close>: the connection has been
  received from the channel, \<open>freeConns\<close> is not yet decremented.
\<close>

definition ex_pool_taking :: connectionPool where
  "ex_pool_taking = ex_pool_idle\<lparr>connections := \<lparr>buf = [], cap = 1, closed = False\<rparr>\<rparr>"

text \<open>A pool with four idle connections and release batch 2.\<close>

definition ex_pool_four :: connectionPool where
  "ex_pool_four =
     (newConnectionPool ''127.0.0.1:9101'' 4 0 1024 100 1 0 2)
       \<lparr>connections := \<lparr>buf = [\<lparr>conn = Some 1\<rparr>, \<lparr>conn = Some 2\<rparr>, \<lparr>conn = Some 3\<rparr>,
                                \<lparr>conn = Some 4\<rparr>], cap = 4, closed = False\<rparr>,
        createsem := \<lparr>buf = [True, True, True, True], cap = 4, closed = False\<rparr>,
        freeConns := 4\<rparr>"

definition ex_pool_four_shrunk :: connectionPool where
  "ex_pool_four_shrunk =
     ex_pool_four\<lparr>connections := \<lparr>buf = [\<lparr>conn = Some 3\<rparr>, \<lparr>conn = Some 4\<rparr>],
                                     cap = 4, closed = False\<rparr>,
                   freeConns := 2, closedSocks := [1, 2]\<rparr>"

text \<open>A moving average whose state is its rate.\<close>

definition ex_ops :: "rat ewma_ops" where
  "ex_ops = \<lparr>Update = (\<lambda>n e. e), Tick = (\<lambda>e. e), Rate = (\<lambda>e. e)\<rparr>"

definition ex_routine_fifth :: "rat \<Rightarrow> rat routine" where
  "ex_routine_fifth avg = \<lparr>loop_i = 4, loop_j = 4, ewma = avg\<rparr>"

text \<open>Wires: what the server and the transport do during one call.\<close>

definition wire_send_fails :: wire where
  "wire_send_fails =
     \<lparr>sendOutcome = (\<lambda>n. Some (TransportError ''broken pipe'')),
      recvOutcome = (\<lambda>n. RecvFail EOF)\<rparr>"

definition wire_receive_fails :: wire where
  "wire_receive_fails =
     \<lparr>sendOutcome = (\<lambda>n. None),
      recvOutcome = (\<lambda>n. RecvFail (TransportError ''i/o timeout''))\<rparr>"

definition wire_wrong_frames :: wire where
  "wire_wrong_frames =
     \<lparr>sendOutcome = (\<lambda>n. None),
      recvOutcome = (\<lambda>n. RecvFrame (ResponseStream ''rows''))\<rparr>"

definition wire_wrong_first :: wire where
  "wire_wrong_first =
     \<lparr>sendOutcome = (\<lambda>n. None),
      recvOutcome = (\<lambda>n. if n = 0 then RecvFrame (ResponseStream ''rows'')
                          else RecvFrame StreamEndResponse)\<rparr>"

definition wire_no_end :: wire where
  "wire_no_end =
     \<lparr>sendOutcome = (\<lambda>n. None),
      recvOutcome = (\<lambda>n. if n = 0 then RecvFrame (StatisticsResponse None (Some ''stats''))
                          else RecvFail (TransportError ''i/o timeout''))\<rparr>"

definition wire_two_pages :: wire where
  "wire_two_pages =
     \<lparr>sendOutcome = (\<lambda>n. None),
      recvOutcome = (\<lambda>n. if n < 2 then RecvFrame (ResponseStream ''rows'')
                          else RecvFail (TransportError ''connection reset''))\<rparr>"

definition handler_continue :: ResponseHandler where
  "handler_continue = (\<lambda>args. True)"

text \<open>
  A wire on which the scan request goes out and every later send fails, and a handler
  that asks to stop at its first call.
\<close>

definition wire_close_fails :: wire where
  "wire_close_fails =
     \<lparr>sendOutcome = (\<lambda>n. if n = 0 then None else Some (TransportError ''broken pipe'')),
      recvOutcome = (\<lambda>n. RecvFrame (ResponseStream ''rows''))\<rparr>"

definition handler_stop :: ResponseHandler where
  "handler_stop = (\<lambda>args. False)"

section \<open>Properties\<close>

subsection \<open>Basic facts\<close>



lemma snoc_eq_Cons_length: "xs @ [a] = y # ys \<Longrightarrow> length ys = length xs"
  by (drule arg_cong [of _ _ length]) simp

lemma close_conn_fields [simp]:
  "connections (close_conn c cp) = connections cp"
  "createsem (close_conn c cp) = createsem cp"
  "freeConns (close_conn c cp) = freeConns cp"
  "curActConns (close_conn c cp) = curActConns cp"
  "stopCh (close_conn c cp) = stopCh cp"
  "minPoolSizeWM (close_conn c cp) = minPoolSizeWM cp"
  "relConnBatchSize (close_conn c cp) = relConnBatchSize cp"
  by (simp_all add: close_conn_def split: option.splits)

lemma fold_close_conn_fields [simp]:
  "connections (fold close_conn cs cp) = connections cp"
  "createsem (fold close_conn cs cp) = createsem cp"
  "freeConns (fold close_conn cs cp) = freeConns cp"
  "curActConns (fold close_conn cs cp) = curActConns cp"
  by (induction cs arbitrary: cp; simp)+

lemmas ex_pool_defs = ex_conn_def ex_pool_def ex_pool_borrowed_def ex_pool_idle_def
  ex_pool_shrunk_def ex_pool_taking_def ex_pool_full_def ex_pool_four_def
  ex_pool_four_shrunk_def newConnectionPool_def make_chan_def

lemmas pool_op_defs = GetWithTimeout_def Get_def recv_connection_def create_connection_def
  chan_recv_def chan_send_def Return_def dec_active_def release_and_close_def close_conn_def
  wrap32_def

lemmas statistics_defs = Statistics_def Statistics_exchange_def sendRequest_def Receive_def
  session_start_def

lemma ex_Get: "Get CaseTimer CaseSem (Inr ex_conn) ex_pool = Some (Inr ex_conn, ex_pool_borrowed)"
  by (simp add: pool_op_defs ex_pool_defs)

lemma ex_Return: "Return (Some ex_conn) True ex_pool_borrowed = Some ex_pool_idle"
  by (simp add: pool_op_defs ex_pool_defs)

subsection \<open>Acquisition: grow or wait\<close>

text \<open>
  C3. In the third stage of an acquisition (no idle connection is queued and the idle
  channel is open, the short wait has timed out): when a create permit is obtained and the
  make-connection function fails, the dial error is returned and the permit is released
  again, the pool being otherwise unchanged; when it succeeds, the new connection is
  returned, \<open>curActConns\<close> is incremented and the permit stays held; when the timer
  fires, \<open>ErrorPoolTimeout\<close> is returned and the pool is unchanged; and when no permit
  is free, a call that returns can only return that timeout.
\<close>

theorem GetWithTimeout_grow_or_wait:
  assumes "buf (connections cp) = []" and "\<not> closed (connections cp)"
  shows "(length (buf (createsem cp)) < cap (createsem cp) \<and> \<not> closed (createsem cp) \<longrightarrow>
            (\<exists>cp'. GetWithTimeout CaseTimer CaseSem (Inl e) cp = Some (Inl e, cp')
                  \<and> permits_held cp' = permits_held cp
                  \<and> cp'\<lparr>createsem := createsem cp\<rparr> = cp))
       \<and> (length (buf (createsem cp)) < cap (createsem cp) \<and> \<not> closed (createsem cp) \<longrightarrow>
            (\<exists>cp'. GetWithTimeout CaseTimer CaseSem (Inr c) cp = Some (Inr c, cp')
                  \<and> curActConns cp' = wrap32 (curActConns cp + 1)
                  \<and> permits_held cp' = permits_held cp + 1
                  \<and> cp'\<lparr>createsem := createsem cp, curActConns := curActConns cp\<rparr> = cp))
       \<and> GetWithTimeout CaseTimer CaseTimer mk cp = Some (Inl ErrorPoolTimeout, cp)
       \<and> (\<not> length (buf (createsem cp)) < cap (createsem cp) \<longrightarrow>
            (\<forall>evB evC r. GetWithTimeout evB evC mk cp = Some r \<longrightarrow>
               r = (Inl ErrorPoolTimeout, cp)))"
  using assms
  by (auto simp: GetWithTimeout_def recv_connection_def create_connection_def chan_recv_def
      chan_send_def permits_held_def snoc_eq_Cons_length
      split: select_case.splits if_splits list.splits)

theorem GetWithTimeout_grow_or_wait_witness:
  "buf (connections ex_pool) = [] \<and> \<not> closed (connections ex_pool)
   \<and> length (buf (createsem ex_pool)) < cap (createsem ex_pool)
   \<and> GetWithTimeout CaseTimer CaseSem (Inl (DialError ''refused'')) ex_pool
        = Some (Inl (DialError ''refused''), ex_pool)
   \<and> GetWithTimeout CaseTimer CaseSem (Inr ex_conn) ex_pool = Some (Inr ex_conn, ex_pool_borrowed)
   \<and> GetWithTimeout CaseTimer CaseTimer (Inr ex_conn) ex_pool = Some (Inl ErrorPoolTimeout, ex_pool)
   \<and> \<not> length (buf (createsem ex_pool_full)) < cap (createsem ex_pool_full)
   \<and> GetWithTimeout CaseTimer CaseTimer (Inr ex_conn) ex_pool_full
        = Some (Inl ErrorPoolTimeout, ex_pool_full)
   \<and> GetWithTimeout CaseTimer CaseSem (Inr ex_conn) ex_pool_full = None"
proof -
  have e: "buf (connections ex_pool) = []" "\<not> closed (connections ex_pool)"
    and f: "buf (connections ex_pool_full) = []" "\<not> closed (connections ex_pool_full)"
    by (simp_all add: ex_pool_defs)
  have room: "length (buf (createsem ex_pool)) < cap (createsem ex_pool)"
    and full: "\<not> length (buf (createsem ex_pool_full)) < cap (createsem ex_pool_full)"
    by (simp_all add: ex_pool_defs)
  have t1: "GetWithTimeout CaseTimer CaseTimer (Inr ex_conn) ex_pool = Some (Inl ErrorPoolTimeout, ex_pool)"
    using GetWithTimeout_grow_or_wait [OF e] by blast
  have t2: "GetWithTimeout CaseTimer CaseTimer (Inr ex_conn) ex_pool_full
        = Some (Inl ErrorPoolTimeout, ex_pool_full)"
    using GetWithTimeout_grow_or_wait [OF f] by blast
  have d: "GetWithTimeout CaseTimer CaseSem (Inl (DialError ''refused'')) ex_pool
        = Some (Inl (DialError ''refused''), ex_pool)"
    by (simp add: pool_op_defs ex_pool_defs)
  have c: "GetWithTimeout CaseTimer CaseSem (Inr ex_conn) ex_pool = Some (Inr ex_conn, ex_pool_borrowed)"
    by (simp add: pool_op_defs ex_pool_defs)
  have n: "GetWithTimeout CaseTimer CaseSem (Inr ex_conn) ex_pool_full = None"
    by (simp add: pool_op_defs ex_pool_defs)
  from e room t1 t2 d c n full show ?thesis by blast
qed

subsection \<open>Return\<close>

lemma ex_Close: "Close ex_pool_borrowed = Some ex_pool_shut"
  by (simp add: Close_def chan_send_def ex_pool_shut_def ex_pool_defs)

text \<open>
  C4. A call of \<open>Return\<close> returns whenever the connection is nil or a permit is held;
  every call that returns has decremented \<open>curActConns\<close>. For a nil connection, and
  for a connection with no socket, nothing else happens: the result is the pool with the
  counter decremented. For a connection with a socket the call does exactly this:

  \<^item> \<open>healthy\<close>, the idle channel open with room: the connection is queued and
    \<open>freeConns\<close> incremented;
  \<^item> \<open>healthy\<close>, the idle channel closed by \<open>Close\<close>: the send panics, the
    socket is closed;
  \<^item> \<open>healthy\<close> with the idle channel open and full, or not \<open>healthy\<close>,
    whatever the state of the idle channel: one permit is taken off the semaphore and the
    socket is closed; with no permit queued the call waits and does not return.
\<close>

theorem Return_cases:
  "(connectn = None \<or> 0 < permits_held cp \<longrightarrow> Return connectn healthy cp \<noteq> None)
   \<and> (\<forall>cp'. Return connectn healthy cp = Some cp' \<longrightarrow>
          curActConns cp' = wrap32 (curActConns cp - 1))
   \<and> (connectn = None \<or> (\<exists>cn. connectn = Some cn \<and> conn cn = None) \<longrightarrow>
          Return connectn healthy cp = Some (cp\<lparr>curActConns := wrap32 (curActConns cp - 1)\<rparr>))
   \<and> (\<forall>cn sk. connectn = Some cn \<and> conn cn = Some sk \<longrightarrow>
        (healthy \<and> \<not> closed (connections cp)
           \<and> length (buf (connections cp)) < cap (connections cp) \<longrightarrow>
           Return connectn healthy cp =
             Some (cp\<lparr>connections := (connections cp)\<lparr>buf := buf (connections cp) @ [cn]\<rparr>,
                      freeConns := wrap32 (freeConns cp + 1),
                      curActConns := wrap32 (curActConns cp - 1)\<rparr>))
      \<and> (healthy \<and> closed (connections cp) \<longrightarrow>
           Return connectn healthy cp =
             Some (cp\<lparr>closedSocks := closedSocks cp @ [sk],
                      curActConns := wrap32 (curActConns cp - 1)\<rparr>))
      \<and> (\<not> healthy
           \<or> (\<not> closed (connections cp)
              \<and> \<not> length (buf (connections cp)) < cap (connections cp)) \<longrightarrow>
           (\<forall>b bs. buf (createsem cp) = b # bs \<longrightarrow>
              Return connectn healthy cp =
                Some (cp\<lparr>createsem := (createsem cp)\<lparr>buf := bs\<rparr>,
                         closedSocks := closedSocks cp @ [sk],
                         curActConns := wrap32 (curActConns cp - 1)\<rparr>))
         \<and> (buf (createsem cp) = [] \<and> \<not> closed (createsem cp) \<longrightarrow>
              Return connectn healthy cp = None)
         \<and> (\<forall>cp'. Return connectn healthy cp = Some cp' \<and> \<not> closed (createsem cp) \<longrightarrow>
              permits_held cp = permits_held cp' + 1
            \<and> closedSocks cp' = closedSocks cp @ [sk]
            \<and> connections cp' = connections cp
            \<and> freeConns cp' = freeConns cp)))"
  by (auto simp: Return_def dec_active_def chan_send_def chan_recv_def release_and_close_def
      close_conn_def permits_held_def split: option.splits if_splits list.splits)

theorem Return_cases_witness:
  "0 < permits_held ex_pool_borrowed
   \<and> Return (Some ex_conn) True ex_pool_borrowed = Some ex_pool_idle
   \<and> curActConns ex_pool_idle = wrap32 (curActConns ex_pool_borrowed - 1)
   \<and> freeConns ex_pool_idle = 1 \<and> curActConns ex_pool_idle = 0
   \<and> buf (connections ex_pool_idle) = [ex_conn]
   \<and> Return (Some ex_conn) False ex_pool_borrowed
        = Some (ex_pool\<lparr>closedSocks := [7]\<rparr>)
   \<and> Return (Some \<lparr>conn = Some 8\<rparr>) True (ex_pool_idle\<lparr>curActConns := 1\<rparr>)
        = Some (ex_pool_idle\<lparr>createsem := \<lparr>buf = [], cap = 2, closed = False\<rparr>,
                            closedSocks := [8]\<rparr>)
   \<and> Return None True ex_pool_borrowed = Some (ex_pool_borrowed\<lparr>curActConns := 0\<rparr>)
   \<and> Return (Some \<lparr>conn = None\<rparr>) False ex_pool_borrowed
        = Some (ex_pool_borrowed\<lparr>curActConns := 0\<rparr>)
   \<and> closed (connections ex_pool_shut)
   \<and> Return (Some ex_conn) False ex_pool_shut
        = Some (ex_pool_shut\<lparr>createsem := \<lparr>buf = [], cap = 2, closed = False\<rparr>,
                            closedSocks := [7], curActConns := 0\<rparr>)
   \<and> Return (Some ex_conn) True ex_pool_shut
        = Some (ex_pool_shut\<lparr>closedSocks := [7], curActConns := 0\<rparr>)
   \<and> Return (Some ex_conn) False ex_pool = None"
proof -
  have p: "0 < permits_held ex_pool_borrowed"
    by (simp add: permits_held_def ex_pool_defs)
  have r1: "Return (Some ex_conn) True ex_pool_borrowed = Some ex_pool_idle"
    by (simp add: pool_op_defs ex_pool_defs)
  have a: "curActConns ex_pool_idle = wrap32 (curActConns ex_pool_borrowed - 1)"
    using Return_cases [of "Some ex_conn" ex_pool_borrowed True] r1 by blast
  have v: "freeConns ex_pool_idle = 1" "curActConns ex_pool_idle = 0"
    "buf (connections ex_pool_idle) = [ex_conn]"
    by (simp_all add: ex_pool_defs)
  have r2: "Return (Some ex_conn) False ex_pool_borrowed = Some (ex_pool\<lparr>closedSocks := [7]\<rparr>)"
    by (simp add: pool_op_defs ex_pool_defs)
  have r3: "Return (Some \<lparr>conn = Some 8\<rparr>) True (ex_pool_idle\<lparr>curActConns := 1\<rparr>)
        = Some (ex_pool_idle\<lparr>createsem := \<lparr>buf = [], cap = 2, closed = False\<rparr>,
                            closedSocks := [8]\<rparr>)"
    by (simp add: pool_op_defs ex_pool_defs)
  have r4: "Return None True ex_pool_borrowed = Some (ex_pool_borrowed\<lparr>curActConns := 0\<rparr>)"
    by (simp add: pool_op_defs ex_pool_defs)
  have r5: "Return (Some \<lparr>conn = None\<rparr>) False ex_pool_borrowed
        = Some (ex_pool_borrowed\<lparr>curActConns := 0\<rparr>)"
    by (simp add: pool_op_defs ex_pool_defs)
  have c: "closed (connections ex_pool_shut)"
    by (simp add: ex_pool_shut_def)
  have r6: "Return (Some ex_conn) False ex_pool_shut
        = Some (ex_pool_shut\<lparr>createsem := \<lparr>buf = [], cap = 2, closed = False\<rparr>,
                            closedSocks := [7], curActConns := 0\<rparr>)"
    by (simp add: pool_op_defs ex_pool_shut_def ex_pool_defs)
  have r7: "Return (Some ex_conn) True ex_pool_shut
        = Some (ex_pool_shut\<lparr>closedSocks := [7], curActConns := 0\<rparr>)"
    by (simp add: pool_op_defs ex_pool_shut_def ex_pool_defs)
  have r8: "Return (Some ex_conn) False ex_pool = None"
    by (simp add: pool_op_defs ex_pool_defs)
  from p r1 a v r2 r3 r4 r5 c r6 r7 r8 show ?thesis by blast
qed

subsection \<open>Statistics\<close>

text \<open>
  C10. When the request of a \<open>Statistics\<close> call has been sent and a first frame
  received, and the second receive (for the end-of-stream marker) fails with a transport
  error, that error is dropped: the call returns \<open>ErrorProtocol\<close> whatever the error
  and whatever the first frame were, the variable \<open>healthy\<close> is still true, and the
  connection goes back to the pool as healthy.
\<close>

theorem Statistics_end_receive_fails:
  assumes "Get evB evC mk cp = Some (Inr connectn, cp1)"
    and "sendOutcome w 0 = None"
    and "recvOutcome w 0 = RecvFrame resp"
    and "recvOutcome w 1 = RecvFail e"
  shows "Statistics evB evC mk w cp =
           map_option
             (\<lambda>cp2. \<lparr>result = Returns (None, Some ErrorProtocol), healthy_var = Some True,
                      returned_healthy = Some True, handler_calls = [], pool_after = cp2\<rparr>)
             (Return (Some connectn) True cp1)"
  using assms by (simp add: statistics_defs)

theorem Statistics_end_receive_fails_witness:
  "Get CaseTimer CaseSem (Inr ex_conn) ex_pool = Some (Inr ex_conn, ex_pool_borrowed)
   \<and> sendOutcome wire_no_end 0 = None
   \<and> recvOutcome wire_no_end 0 = RecvFrame (StatisticsResponse None (Some ''stats''))
   \<and> recvOutcome wire_no_end 1 = RecvFail (TransportError ''i/o timeout'')
   \<and> Statistics CaseTimer CaseSem (Inr ex_conn) wire_no_end ex_pool =
        Some \<lparr>result = Returns (None, Some ErrorProtocol), healthy_var = Some True,
              returned_healthy = Some True, handler_calls = [], pool_after = ex_pool_idle\<rparr>"
proof -
  have s: "sendOutcome wire_no_end 0 = None"
    and r0: "recvOutcome wire_no_end 0 = RecvFrame (StatisticsResponse None (Some ''stats''))"
    and r1: "recvOutcome wire_no_end 1 = RecvFail (TransportError ''i/o timeout'')"
    by (simp_all add: wire_no_end_def)
  show ?thesis
    using Statistics_end_receive_fails [OF ex_Get s r0 r1] ex_Get ex_Return s r0 r1 by simp
qed

text \<open>
  C8 has every \<open>Statistics\<close> call that receives a frame of an unexpected type return
  \<open>ErrorProtocol\<close> and mark the connection unhealthy. The code does neither in full.
  In the first run below neither frame has the expected type: \<open>ErrorProtocol\<close> is
  returned, but \<open>healthy\<close> is never assigned on this exit (the exits for a failed send
  and a failed first receive do assign it), it is still true, and the connection is
  queued as idle again with its socket open. In the second run the first frame is not a
  statistics response and the second is the end-of-stream marker: the type of the first
  frame is tested nowhere, the unchecked type assertion
  \<open>resp.(*protobuf.StatisticsResponse)\<close> panics, and the call returns no error at
  all.
\<close>

theorem Statistics_unexpected_frames:
  "Statistics CaseTimer CaseSem (Inr ex_conn) wire_wrong_frames ex_pool =
     Some \<lparr>result = Returns (None, Some ErrorProtocol),
           healthy_var = Some True, returned_healthy = Some True, handler_calls = [],
           pool_after = ex_pool_idle\<rparr>
   \<and> buf (connections ex_pool_idle) = [ex_conn]
   \<and> closedSocks ex_pool_idle = []
   \<and> Statistics CaseTimer CaseSem (Inr ex_conn) wire_wrong_first ex_pool =
     Some \<lparr>result = Panics,
           healthy_var = Some True, returned_healthy = Some True, handler_calls = [],
           pool_after = ex_pool_idle\<rparr>"
  by (simp add: statistics_defs wire_wrong_frames_def wire_wrong_first_def pool_op_defs
      ex_pool_defs)

text \<open>
  The two runs are instances of what the code does on every wire. When the second frame
  is not the end-of-stream marker the call returns \<open>ErrorProtocol\<close> whatever the first
  frame is, with \<open>healthy\<close> true; when it is the marker and the first frame is not a
  statistics response, the call panics.
\<close>

lemma Statistics_no_end_marker:
  assumes "Get evB evC mk cp = Some (Inr connectn, cp1)"
    and "sendOutcome w 0 = None"
    and "recvOutcome w 0 = RecvFrame resp"
    and "recvOutcome w 1 = RecvFrame endResp"
    and "endResp \<noteq> StreamEndResponse"
  shows "Statistics evB evC mk w cp =
           map_option
             (\<lambda>cp2. \<lparr>result = Returns (None, Some ErrorProtocol), healthy_var = Some True,
                      returned_healthy = Some True, handler_calls = [], pool_after = cp2\<rparr>)
             (Return (Some connectn) True cp1)"
  using assms by (cases endResp) (simp_all add: statistics_defs)

lemma Statistics_first_frame_unchecked:
  assumes "Get evB evC mk cp = Some (Inr connectn, cp1)"
    and "sendOutcome w 0 = None"
    and "recvOutcome w 0 = RecvFrame resp"
    and "\<forall>e stats. resp \<noteq> StatisticsResponse e stats"
    and "recvOutcome w 1 = RecvFrame StreamEndResponse"
  shows "Statistics evB evC mk w cp =
           map_option
             (\<lambda>cp2. \<lparr>result = Panics, healthy_var = Some True,
                      returned_healthy = Some True, handler_calls = [], pool_after = cp2\<rparr>)
             (Return (Some connectn) True cp1)"
  using assms by (cases resp) (simp_all add: statistics_defs)

subsection \<open>The invariant of the running pool\<close>










subsection \<open>Runs of the example pool\<close>

lemma move_at:
  assumes "running ops n m N \<lparr>pool = cp, procs = ps @ g # qs\<rparr>" and "gstep ops cp g cp' g'"
  shows "running ops n m N \<lparr>pool = cp', procs = ps @ g' # qs\<rparr>"
  using running.moves [OF assms(1), of ps g qs cp' g'] assms(2) by simp

text \<open>An acquisition that finds nothing queued and a free permit, and dials.\<close>

lemma acquires_by_dialling:
  assumes run: "running ops n m N \<lparr>pool = cp, procs = ps @ Get_short # qs\<rparr>"
    and empty: "buf (connections cp) = []" "\<not> closed (connections cp)"
    and room: "length (buf (createsem cp)) < cap (createsem cp)" "\<not> closed (createsem cp)"
  shows "running ops n m N
     \<lparr>pool = cp\<lparr>createsem := (createsem cp)\<lparr>buf := buf (createsem cp) @ [True]\<rparr>,
                  curActConns := wrap32 (curActConns cp + 1)\<rparr>,
      procs = ps @ Holding c # qs\<rparr>"
proof -
  have "chan_recv (connections cp) = (RecvNotReady, connections cp)"
    using empty by (simp add: chan_recv_def)
  from move_at [OF run gstep.short_default [OF this]]
  have "running ops n m N \<lparr>pool = cp, procs = ps @ Get_avail1 # qs\<rparr>" .
  from move_at [OF this gstep.avail1_timer]
  have a2: "running ops n m N \<lparr>pool = cp, procs = ps @ Get_avail2 # qs\<rparr>" .
  let ?sem = "(createsem cp)\<lparr>buf := buf (createsem cp) @ [True]\<rparr>"
  have "chan_send True (createsem cp) = (Sent, ?sem)"
    using room by (simp add: chan_send_def)
  from move_at [OF a2 gstep.avail2_sem [OF this]]
  have "running ops n m N \<lparr>pool = cp\<lparr>createsem := ?sem\<rparr>, procs = ps @ Get_permit # qs\<rparr>" .
  from move_at [OF this gstep.dial_succeeds [of _ _ c]]
  have "running ops n m N \<lparr>pool = cp\<lparr>createsem := ?sem\<rparr>, procs = ps @ Get_dialled c # qs\<rparr>" .
  from move_at [OF this gstep.dialled_counts_active]
  show ?thesis by simp
qed

text \<open>A healthy return up to its deferred decrement, and the decrement.\<close>

lemma returns_up_to_decrement:
  assumes run: "running ops n m N \<lparr>pool = cp, procs = ps @ Holding c # qs\<rparr>"
    and sock: "conn c \<noteq> None"
    and room: "length (buf (connections cp)) < cap (connections cp)" "\<not> closed (connections cp)"
  shows "running ops n m N
     \<lparr>pool = cp\<lparr>connections := (connections cp)\<lparr>buf := buf (connections cp) @ [c]\<rparr>,
                  freeConns := wrap32 (freeConns cp + 1)\<rparr>,
      procs = ps @ Ret_dec # qs\<rparr>"
proof -
  from move_at [OF run gstep.return_called [of _ _ _ True]]
  have s: "running ops n m N \<lparr>pool = cp, procs = ps @ Ret_start (Some c) True # qs\<rparr>" .
  let ?ch = "(connections cp)\<lparr>buf := buf (connections cp) @ [c]\<rparr>"
  have "chan_send c (connections cp) = (Sent, ?ch)"
    using room by (simp add: chan_send_def)
  from move_at [OF s gstep.return_deposits [OF sock this]]
  have "running ops n m N \<lparr>pool = cp\<lparr>connections := ?ch\<rparr>, procs = ps @ Ret_deposited # qs\<rparr>" .
  from move_at [OF this gstep.deposited_counts_free]
  show ?thesis by simp
qed

lemma decrements_and_leaves:
  assumes run: "running ops n m N \<lparr>pool = cp, procs = ps @ Ret_dec # qs\<rparr>"
  shows "running ops n m N \<lparr>pool = dec_active cp, procs = ps @ qs\<rparr>"
proof -
  from move_at [OF run gstep.return_decrements]
  have "running ops n m N \<lparr>pool = dec_active cp, procs = ps @ Finished # qs\<rparr>" .
  from running.leaves [OF this, of ps Finished qs] show ?thesis by simp
qed




lemma ex_running_idle:
  "running ex_ops 1 1 4 \<lparr>pool = ex_pool_idle, procs = [Rt_top (routine_start 0)]\<rparr>"
proof -
  let ?r = "Rt_top (routine_start (0 :: rat))"
  have "running ex_ops 1 1 4 \<lparr>pool = ex_pool, procs = [?r]\<rparr>"
    unfolding ex_pool_def by (rule running.started) simp_all
  from running.get_called [OF this]
  have "running ex_ops 1 1 4 \<lparr>pool = ex_pool, procs = [?r] @ Get_short # []\<rparr>" by simp
  from acquires_by_dialling [OF this, of ex_conn]
  have "running ex_ops 1 1 4 \<lparr>pool = ex_pool_borrowed, procs = [?r] @ Holding ex_conn # []\<rparr>"
    by (simp add: ex_pool_defs wrap32_def numeral_2_eq_2)
  from returns_up_to_decrement [OF this]
  have "running ex_ops 1 1 4
     \<lparr>pool = ex_pool_borrowed\<lparr>connections := \<lparr>buf = [ex_conn], cap = 1, closed = False\<rparr>,
                               freeConns := 1\<rparr>,
      procs = [?r] @ Ret_dec # []\<rparr>"
    by (simp add: ex_pool_defs wrap32_def numeral_2_eq_2)
  from decrements_and_leaves [OF this]
  show ?thesis by (simp add: dec_active_def ex_pool_defs wrap32_def numeral_2_eq_2)
qed


lemma routine_idle_round:
  assumes run: "running ops n m N \<lparr>pool = cp, procs = ps @ Rt_top r # qs\<rparr>"
    and nostop: "buf (stopCh cp) = []" "\<not> closed (stopCh cp)"
    and i: "loop_i r \<noteq> CONN_RELEASE_INTERVAL - 1"
  shows "running ops n m N
     \<lparr>pool = cp,
      procs = ps @ Rt_top (next_round (r\<lparr>ewma := Update ops (curActConns cp) (ewma r)\<rparr>)) # qs\<rparr>"
proof -
  have "chan_recv (stopCh cp) = (RecvNotReady, stopCh cp)"
    using nostop by (simp add: chan_recv_def)
  from move_at [OF run gstep.routine_runs [OF this]]
  have "running ops n m N \<lparr>pool = cp, procs = ps @ Rt_sample r # qs\<rparr>" .
  from move_at [OF this gstep.routine_samples [OF i]] show ?thesis .
qed

lemma ex_running_fifth:
  "running ex_ops 1 1 4 \<lparr>pool = ex_pool_idle, procs = [Rt_top (ex_routine_fifth 0)]\<rparr>"
proof -
  have s: "buf (stopCh ex_pool_idle) = []" "\<not> closed (stopCh ex_pool_idle)"
    by (simp_all add: ex_pool_defs)
  from ex_running_idle
  have "running ex_ops 1 1 4
     \<lparr>pool = ex_pool_idle, procs = [] @ Rt_top \<lparr>loop_i = 0, loop_j = 0, ewma = 0\<rparr> # []\<rparr>"
    by (simp add: routine_start_def)
  from routine_idle_round [OF this s]
  have "running ex_ops 1 1 4
     \<lparr>pool = ex_pool_idle, procs = [] @ Rt_top \<lparr>loop_i = 1, loop_j = 1, ewma = 0\<rparr> # []\<rparr>"
    by (simp add: next_round_def ex_ops_def CONN_RELEASE_INTERVAL_def CONN_COUNT_LOG_INTERVAL_def)
  from routine_idle_round [OF this s]
  have "running ex_ops 1 1 4
     \<lparr>pool = ex_pool_idle, procs = [] @ Rt_top \<lparr>loop_i = 2, loop_j = 2, ewma = 0\<rparr> # []\<rparr>"
    by (simp add: next_round_def ex_ops_def CONN_RELEASE_INTERVAL_def CONN_COUNT_LOG_INTERVAL_def
        numeral_2_eq_2)
  from routine_idle_round [OF this s]
  have "running ex_ops 1 1 4
     \<lparr>pool = ex_pool_idle, procs = [] @ Rt_top \<lparr>loop_i = 3, loop_j = 3, ewma = 0\<rparr> # []\<rparr>"
    by (simp add: next_round_def ex_ops_def CONN_RELEASE_INTERVAL_def CONN_COUNT_LOG_INTERVAL_def)
  from routine_idle_round [OF this s]
  show ?thesis
    by (simp add: next_round_def ex_ops_def ex_routine_fifth_def CONN_RELEASE_INTERVAL_def
        CONN_COUNT_LOG_INTERVAL_def)
qed

lemma ex_running_shrunk:
  "running ex_ops 1 1 4
     \<lparr>pool = ex_pool_shrunk, procs = [Rt_top \<lparr>loop_i = 0, loop_j = 5, ewma = 0\<rparr>]\<rparr>"
proof -
  let ?r = "ex_routine_fifth (0 :: rat)"
  have i: "loop_i ?r = CONN_RELEASE_INTERVAL - 1"
    by (simp add: ex_routine_fifth_def CONN_RELEASE_INTERVAL_def)
  have tick: "?r\<lparr>ewma := Tick ex_ops (Update ex_ops (curActConns ex_pool_idle) (ewma ?r))\<rparr> = ?r"
    by (simp add: ex_ops_def ex_routine_fifth_def)
  from ex_running_fifth
  have r0: "running ex_ops 1 1 4 \<lparr>pool = ex_pool_idle, procs = [] @ Rt_top ?r # []\<rparr>" by simp
  have "chan_recv (stopCh ex_pool_idle) = (RecvNotReady, stopCh ex_pool_idle)"
    by (simp add: chan_recv_def ex_pool_defs)
  from move_at [OF r0 gstep.routine_runs [OF this]]
  have "running ex_ops 1 1 4 \<lparr>pool = ex_pool_idle, procs = [] @ Rt_sample ?r # []\<rparr>" .
  from move_at [OF this gstep.routine_ticks [OF i]]
  have "running ex_ops 1 1 4 \<lparr>pool = ex_pool_idle, procs = [] @ Rt_retain_act ?r # []\<rparr>"
    by (simp only: tick)
  from move_at [OF this gstep.retain_loads_active]
  have r1: "running ex_ops 1 1 4
     \<lparr>pool = ex_pool_idle, procs = [] @ Rt_retain_free ?r (curActConns ex_pool_idle) # []\<rparr>" .
  have "numConnsToRetain (Rate ex_ops (ewma ?r))
      (ex_pool_idle\<lparr>curActConns := curActConns ex_pool_idle\<rparr>) = (0, True)"
    by (simp add: numConnsToRetain_def max_int32_def int32_of_float_def ex_ops_def
        ex_routine_fifth_def ex_pool_defs wrap32_def)
  from move_at [OF r1 gstep.retain_frees [OF this]]
  have "running ex_ops 1 1 4 \<lparr>pool = ex_pool_idle, procs = [] @ Rt_release ?r 0 # []\<rparr>" .
  from move_at [OF this gstep.release_loads_free]
  have r2: "running ex_ops 1 1 4
     \<lparr>pool = ex_pool_idle, procs = [] @ Rt_release_act ?r 0 (freeConns ex_pool_idle) # []\<rparr>" .
  have "0 < wrap32 (curActConns ex_pool_idle + freeConns ex_pool_idle) \<and> 0 < freeConns ex_pool_idle"
    by (simp add: ex_pool_defs wrap32_def)
  from move_at [OF r2 gstep.release_goes_on [OF this]]
  have r3: "running ex_ops 1 1 4
     \<lparr>pool = ex_pool_idle, procs = [] @ Rt_release_select ?r 0 # []\<rparr>" .
  let ?ch = "\<lparr>buf = [], cap = 1, closed = False\<rparr> :: connection chan"
  have "chan_recv (connections ex_pool_idle) = (Received ex_conn, ?ch)"
    by (simp add: chan_recv_def ex_pool_defs)
  from move_at [OF r3 gstep.release_recv [OF this]]
  have "running ex_ops 1 1 4
     \<lparr>pool = ex_pool_idle\<lparr>connections := ?ch\<rparr>, procs = [] @ Rt_release_got ?r 0 ex_conn # []\<rparr>" .
  from move_at [OF this gstep.release_got]
  have "running ex_ops 1 1 4 \<lparr>pool = ex_pool_shrunk, procs = [] @ Rt_release ?r 0 # []\<rparr>"
    by (simp add: close_conn_def ex_pool_defs wrap32_def)
  from move_at [OF this gstep.release_loads_free]
  have r4: "running ex_ops 1 1 4
     \<lparr>pool = ex_pool_shrunk, procs = [] @ Rt_release_act ?r 0 (freeConns ex_pool_shrunk) # []\<rparr>" .
  have "\<not> (0 < wrap32 (curActConns ex_pool_shrunk + freeConns ex_pool_shrunk)
        \<and> 0 < freeConns ex_pool_shrunk)"
    by (simp add: ex_pool_defs wrap32_def)
  from move_at [OF r4 gstep.release_ends [OF this]]
  show ?thesis
    by (simp add: next_round_def ex_routine_fifth_def CONN_RELEASE_INTERVAL_def
        CONN_COUNT_LOG_INTERVAL_def)
qed

subsection \<open>The bounds on the counters\<close>




subsection \<open>The shrink loop\<close>

lemma ex_releaseConns: "releaseConns 0 ex_pool_idle = Some ex_pool_shrunk"
  by (simp add: releaseConns.simps chan_recv_def close_conn_def ex_pool_defs wrap32_def)

lemma ex_round:
  "releaseConnsRoutine_round ex_ops (ex_routine_fifth 0) ex_pool_idle =
     Some (Continues \<lparr>loop_i = 0, loop_j = 5, ewma = 0\<rparr> ex_pool_shrunk)"
proof -
  have n: "numConnsToRetain 0 ex_pool_idle = (0, True)"
    by (simp add: numConnsToRetain_def max_int32_def int32_of_float_def ex_pool_defs wrap32_def)
  have s: "chan_recv (stopCh ex_pool_idle) = (RecvNotReady, stopCh ex_pool_idle)"
    by (simp add: chan_recv_def ex_pool_defs)
  show ?thesis
    by (simp add: releaseConnsRoutine_round_def s n ex_releaseConns ex_ops_def
        ex_routine_fifth_def CONN_RELEASE_INTERVAL_def CONN_COUNT_LOG_INTERVAL_def)
qed

text \<open>
  C2 asks that the permits held equal \<open>freeConns + curActConns\<close> in every reachable
  state, the shrink loop releasing one permit for each connection it closes.
  \<open>releaseConns\<close> closes the connection and decrements \<open>freeConns\<close>, and leaves
  \<open>createsem\<close> alone: after a dial, a healthy return and the fifth round of the
  retention loop, with no operation of the pool in progress, one permit is held for no
  connection.
\<close>

theorem shrink_keeps_permit:
  "releaseConnsRoutine_round ex_ops (ex_routine_fifth 0) ex_pool_idle =
     Some (Continues \<lparr>loop_i = 0, loop_j = 5, ewma = 0\<rparr> ex_pool_shrunk)
   \<and> running ex_ops 1 1 4
       \<lparr>pool = ex_pool_shrunk, procs = [Rt_top \<lparr>loop_i = 0, loop_j = 5, ewma = 0\<rparr>]\<rparr>
   \<and> closedSocks ex_pool_shrunk = [7]
   \<and> permits_held ex_pool_shrunk = 1
   \<and> freeConns ex_pool_shrunk + curActConns ex_pool_shrunk = 0"
proof -
  have "closedSocks ex_pool_shrunk = [7]" "permits_held ex_pool_shrunk = 1"
    "freeConns ex_pool_shrunk + curActConns ex_pool_shrunk = 0"
    by (simp_all add: ex_pool_defs permits_held_def)
  with ex_running_shrunk ex_round show ?thesis by blast
qed

text \<open>
  When the counters ask for a release and the open idle channel has nothing queued, the
  loop takes the \<open>default\<close> case, whose \<open>break\<close> leaves the \<open>select\<close> only: the
  next round finds the same state. Such a call does not return.
\<close>

lemma releaseConns_returns_not_no_idle:
  assumes "releaseConns t cp = Some cp'"
  shows "\<not> no_idle_available t cp"
proof (rule releaseConns.raw_induct [OF _ assms])
  fix f t cp cp'
  assume IH: "\<And>t cp cp'. f t cp = Some cp' \<Longrightarrow> \<not> no_idle_available t cp"
    and body: "(let fc = freeConns cp; act = curActConns cp; totalConns = wrap32 (act + fc)
      in if t < totalConns \<and> 0 < fc
         then case chan_recv (connections cp) of
              (Received c, ch) \<Rightarrow>
                f t (close_conn c (cp\<lparr>connections := ch, freeConns := wrap32 (freeConns cp - 1)\<rparr>))
              | (RecvClosed, ch) \<Rightarrow> Some cp
              | (RecvNotReady, ch) \<Rightarrow> f t cp
         else Some cp) = Some cp'"
  show "\<not> no_idle_available t cp"
  proof
    assume spin: "no_idle_available t cp"
    with body have "f t cp = Some cp'"
      by (simp add: chan_recv_def Let_def no_idle_available_def)
    from IH [OF this] spin show False by simp
  qed
qed

lemma releaseConns_no_idle_available: "no_idle_available t cp \<Longrightarrow> releaseConns t cp = None"
  using releaseConns_returns_not_no_idle [of t cp] by (cases "releaseConns t cp") auto

text \<open>
  C6 asks that the shrink step always end, stopping as soon as no idle connection is
  available. In the state below an acquisition has received the only idle connection from
  the channel and has not yet decremented \<open>freeConns\<close>: \<open>releaseConns 0\<close> finds
  nothing to receive, and does not return from that state.
\<close>

theorem releaseConns_spins_without_idle:
  "freeConns ex_pool_taking = 1 \<and> curActConns ex_pool_taking = 0
   \<and> buf (connections ex_pool_taking) = [] \<and> \<not> closed (connections ex_pool_taking)
   \<and> releaseConns 0 ex_pool_taking = None"
proof -
  have "no_idle_available 0 ex_pool_taking"
    by (simp add: no_idle_available_def ex_pool_defs wrap32_def)
  then have "releaseConns 0 ex_pool_taking = None"
    by (rule releaseConns_no_idle_available)
  then show ?thesis by (simp add: ex_pool_defs)
qed

subsection \<open>The retention round\<close>











subsection \<open>Scan and ScanAll\<close>

lemma ScanAll_eq_Scan: "ScanAll evB evC mk w callb cp = Scan evB evC mk w callb cp"
  by (simp add: ScanAll_def Scan_def)

text \<open>
  Both loops end once the wire delivers an end-of-stream marker or a failure: each round
  makes one receive, and the rounds before that delivery are counted down.
\<close>

lemma closeStream_flush_returns:
  assumes "nrecv s \<le> k"
    and "recvOutcome w k = RecvFrame StreamEndResponse \<or> (\<exists>e. recvOutcome w k = RecvFail e)"
  shows "\<exists>r. closeStream_flush w s = Some r"
  using assms
proof (induction "k - nrecv s" arbitrary: s)
  case 0
  then have "nrecv s = k" by simp
  with 0(3) show ?case
    by (subst closeStream_flush.simps) (auto simp: Receive_def)
next
  case (Suc d)
  show ?case
  proof (cases "recvOutcome w (nrecv s)")
    case (RecvFail e)
    then show ?thesis
      by (subst closeStream_flush.simps) (simp add: Receive_def)
  next
    case (RecvFrame resp)
    show ?thesis
    proof (cases "resp = StreamEndResponse")
      case True
      with RecvFrame show ?thesis
        by (subst closeStream_flush.simps) (simp add: Receive_def)
    next
      case False
      let ?s1 = "s\<lparr>nrecv := nrecv s + 1\<rparr>"
      from Suc(2) have "d = k - nrecv ?s1" "nrecv ?s1 \<le> k" by simp_all
      from Suc(1) [OF this Suc(4)] obtain r where "closeStream_flush w ?s1 = Some r" ..
      with RecvFrame False show ?thesis
        by (subst closeStream_flush.simps) (simp add: Receive_def)
    qed
  qed
qed

lemma closeStream_returns:
  assumes "nrecv s \<le> k"
    and "recvOutcome w k = RecvFrame StreamEndResponse \<or> (\<exists>e. recvOutcome w k = RecvFail e)"
  shows "\<exists>r. closeStream w s = Some r"
proof (cases "sendOutcome w (nsent s)")
  case None
  have "nrecv (s\<lparr>nsent := nsent s + 1\<rparr>) \<le> k" using assms(1) by simp
  from closeStream_flush_returns [OF this assms(2)] None show ?thesis
    by (simp add: closeStream_def sendRequest_def)
next
  case (Some e)
  then show ?thesis by (simp add: closeStream_def sendRequest_def)
qed

lemma stream_loop_returns:
  assumes "nrecv s \<le> k"
    and "recvOutcome w k = RecvFrame StreamEndResponse \<or> (\<exists>e. recvOutcome w k = RecvFail e)"
  shows "\<exists>r. stream_loop w callb s = Some r"
  using assms
proof (induction "k - nrecv s" arbitrary: s)
  case 0
  then have "nrecv s = k" by simp
  with 0(3) have "\<exists>h e s1. streamResponse w callb s = Some ((False, h, e), s1)"
    by (auto simp: streamResponse_def Receive_def call_handler_def)
  then show ?case
    by (subst stream_loop.simps) auto
next
  case (Suc d)
  let ?s1 = "s\<lparr>nrecv := nrecv s + 1\<rparr>"
  show ?case
  proof (cases "recvOutcome w (nrecv s)")
    case (RecvFail e)
    then have "streamResponse w callb s
        = Some ((False, False, Some e), ?s1\<lparr>calls := calls s @ [CbErr e]\<rparr>)"
      by (simp add: streamResponse_def Receive_def call_handler_def)
    then show ?thesis by (subst stream_loop.simps) auto
  next
    case (RecvFrame resp)
    show ?thesis
    proof (cases "resp = StreamEndResponse")
      case True
      with RecvFrame have "streamResponse w callb s
          = Some ((False, True, None), ?s1\<lparr>calls := calls s @ [CbFrame resp]\<rparr>)"
        by (simp add: streamResponse_def Receive_def call_handler_def)
      then show ?thesis by (subst stream_loop.simps) auto
    next
      case False
      let ?s2 = "?s1\<lparr>calls := calls s @ [CbFrame resp]\<rparr>"
      from Suc(2) have le: "nrecv ?s2 \<le> k" and d: "d = k - nrecv ?s2" by simp_all
      show ?thesis
      proof (cases "callb (calls s @ [CbFrame resp])")
        case True
        with RecvFrame False have "streamResponse w callb s = Some ((True, True, None), ?s2)"
          by (simp add: streamResponse_def Receive_def call_handler_def)
        moreover from Suc(1) [OF d le Suc(4)] obtain r where "stream_loop w callb ?s2 = Some r" ..
        ultimately show ?thesis by (subst stream_loop.simps) auto
      next
        case stop: False
        from closeStream_returns [OF le Suc(4)] obtain e s3 where
          "closeStream w ?s2 = Some (e, s3)" by auto
        with RecvFrame False stop have "streamResponse w callb s = Some ((False, True, e), s3)"
          by (simp add: streamResponse_def Receive_def call_handler_def)
        then show ?thesis by (subst stream_loop.simps) auto
      qed
    qed
  qed
qed

text \<open>
  \<open>closeStream\<close> never calls the handler: what the handler has been told is what it
  was told before.
\<close>

lemma closeStream_flush_calls:
  assumes "closeStream_flush w s = Some r"
  shows "calls (snd r) = calls s"
proof (rule closeStream_flush.raw_induct [OF _ assms])
  fix f w s r
  assume IH: "\<And>w s r. f w s = Some r \<Longrightarrow> calls (snd r) = calls s"
    and body: "(case Receive w s of
           (RecvFail e, s1) \<Rightarrow> Some (Some e, s1)
         | (RecvFrame resp, s1) \<Rightarrow>
             if resp = StreamEndResponse then Some (None, s1) else f w s1) = Some r"
  show "calls (snd r) = calls s"
  proof (cases "recvOutcome w (nrecv s)")
    case (RecvFail e)
    with body show ?thesis by (auto simp: Receive_def)
  next
    case (RecvFrame resp)
    show ?thesis
    proof (cases "resp = StreamEndResponse")
      case True
      with RecvFrame body show ?thesis by (auto simp: Receive_def)
    next
      case False
      with RecvFrame body have "f w (s\<lparr>nrecv := nrecv s + 1\<rparr>) = Some r"
        by (simp add: Receive_def)
      from IH [OF this] show ?thesis by simp
    qed
  qed
qed

lemma closeStream_calls:
  assumes "closeStream w s = Some r"
  shows "calls (snd r) = calls s"
proof (cases "sendOutcome w (nsent s)")
  case None
  with assms have "closeStream_flush w (s\<lparr>nsent := nsent s + 1\<rparr>) = Some r"
    by (simp add: closeStream_def sendRequest_def)
  from closeStream_flush_calls [OF this] show ?thesis by simp
next
  case (Some e)
  with assms show ?thesis by (auto simp: closeStream_def sendRequest_def)
qed

lemma loop_in_step_snoc:
  assumes "loop_in_step w callb s"
  shows "calls s @ [handler_arg (recvOutcome w (nrecv s))]
           = map (\<lambda>i. handler_arg (recvOutcome w i)) [0..<Suc (length (calls s))]"
    and "\<And>i a. Suc i < Suc (length (calls s)) \<Longrightarrow>
           (\<exists>f. recvOutcome w i = RecvFrame f \<and> f \<noteq> StreamEndResponse)
           \<and> callb (take (Suc i) (calls s @ [a]))"
proof -
  from assms have n: "nrecv s = length (calls s)"
    and m: "calls s = map (\<lambda>i. handler_arg (recvOutcome w i)) [0..<length (calls s)]"
    by (simp_all add: loop_in_step_def)
  have "map (\<lambda>i. handler_arg (recvOutcome w i)) [0..<Suc (length (calls s))]
      = map (\<lambda>i. handler_arg (recvOutcome w i)) [0..<length (calls s)]
          @ [handler_arg (recvOutcome w (length (calls s)))]"
    by simp
  with m n show "calls s @ [handler_arg (recvOutcome w (nrecv s))]
           = map (\<lambda>i. handler_arg (recvOutcome w i)) [0..<Suc (length (calls s))]"
    by simp
next
  fix i a
  assume "Suc i < Suc (length (calls s))"
  then have i: "i < length (calls s)" by simp
  with assms have "(\<exists>f. recvOutcome w i = RecvFrame f \<and> f \<noteq> StreamEndResponse)"
    and "callb (take (Suc i) (calls s))"
    by (simp_all add: loop_in_step_def)
  moreover from i have "take (Suc i) (calls s @ [a]) = take (Suc i) (calls s)" by simp
  ultimately show "(\<exists>f. recvOutcome w i = RecvFrame f \<and> f \<noteq> StreamEndResponse)
           \<and> callb (take (Suc i) (calls s @ [a]))"
    by simp
qed

text \<open>What one call of \<open>streamResponse\<close> does, by the outcome of its receive.\<close>

lemma streamResponse_cases:
  assumes "streamResponse w callb s = Some ((cont, healthy, e1), s1)"
  shows "(\<exists>e. recvOutcome w (nrecv s) = RecvFail e \<and> \<not> cont \<and> \<not> healthy
             \<and> calls s1 = calls s @ [CbErr e])
       \<or> (recvOutcome w (nrecv s) = RecvFrame StreamEndResponse \<and> \<not> cont \<and> healthy
             \<and> calls s1 = calls s @ [CbFrame StreamEndResponse])
       \<or> (\<exists>f. recvOutcome w (nrecv s) = RecvFrame f \<and> f \<noteq> StreamEndResponse \<and> healthy
             \<and> cont = callb (calls s @ [CbFrame f])
             \<and> calls s1 = calls s @ [CbFrame f]
             \<and> (cont \<longrightarrow> nrecv s1 = nrecv s + 1))"
proof (cases "recvOutcome w (nrecv s)")
  case (RecvFail e)
  with assms show ?thesis
    by (auto simp: streamResponse_def Receive_def call_handler_def)
next
  case (RecvFrame f)
  show ?thesis
  proof (cases "f = StreamEndResponse")
    case True
    with RecvFrame assms show ?thesis
      by (auto simp: streamResponse_def Receive_def call_handler_def)
  next
    case False
    let ?s2 = "s\<lparr>nrecv := nrecv s + 1, calls := calls s @ [CbFrame f]\<rparr>"
    show ?thesis
    proof (cases "callb (calls s @ [CbFrame f])")
      case True
      with RecvFrame False assms show ?thesis
        by (auto simp: streamResponse_def Receive_def call_handler_def)
    next
      case stop: False
      with RecvFrame False assms obtain e where
        c: "closeStream w ?s2 = Some (e, s1)" and "cont = False" "healthy = True"
        by (auto simp: streamResponse_def Receive_def call_handler_def)
      from closeStream_calls [OF c] have "calls s1 = calls s @ [CbFrame f]" by simp
      with RecvFrame False stop \<open>cont = False\<close> \<open>healthy = True\<close> show ?thesis by simp
    qed
  qed
qed

lemma loop_report_intro:
  assumes inv: "loop_in_step w callb s"
    and rcv: "handler_arg (recvOutcome w (nrecv s)) = a"
    and cs: "calls s1 = calls s @ [a]"
    and fin: "(\<exists>e. a = CbErr e) \<or> a = CbFrame StreamEndResponse \<or> \<not> callb (calls s @ [a])"
    and h: "h \<longleftrightarrow> \<not> (\<exists>e. a = CbErr e)"
  shows "loop_report w callb ((h, e1), s1)"
proof -
  have len: "length (calls s1) = Suc (length (calls s))" using cs by simp
  have m: "calls s1 = map (\<lambda>i. handler_arg (recvOutcome w i)) [0..<length (calls s1)]"
    using loop_in_step_snoc(1) [OF inv] rcv cs len by simp
  have p: "\<forall>i. Suc i < length (calls s1) \<longrightarrow>
           (\<exists>f. recvOutcome w i = RecvFrame f \<and> f \<noteq> StreamEndResponse)
           \<and> callb (take (Suc i) (calls s1))"
    using loop_in_step_snoc(2) [OF inv] cs len by simp
  have l: "last (calls s1) = a" using cs by simp
  have ne: "calls s1 \<noteq> []" using cs by simp
  from fin cs l have t: "(\<exists>e. last (calls s1) = CbErr e)
        \<or> last (calls s1) = CbFrame StreamEndResponse \<or> \<not> callb (calls s1)"
    by simp
  from h l have hh: "\<not> h \<longleftrightarrow> (\<exists>e. last (calls s1) = CbErr e)" by simp
  show ?thesis
    unfolding loop_report_def fst_conv snd_conv
    using ne m p t hh by blast
qed

lemma stream_loop_report:
  assumes "stream_loop w callb s = Some r"
  shows "loop_in_step w callb s \<longrightarrow> loop_report w callb r"
proof (rule stream_loop.raw_induct [OF _ assms])
  fix f w callb s r
  assume IH: "\<And>w callb s r. f w callb s = Some r \<Longrightarrow>
      loop_in_step w callb s \<longrightarrow> loop_report w callb r"
    and body: "(case streamResponse w callb s of None \<Rightarrow> None
         | Some ((cont, healthy, e), s1) \<Rightarrow>
             if cont then f w callb s1 else Some ((healthy, e), s1)) = Some r"
  show "loop_in_step w callb s \<longrightarrow> loop_report w callb r"
  proof
    assume inv: "loop_in_step w callb s"
    from body obtain cont healthy e1 s1 where
      x: "streamResponse w callb s = Some ((cont, healthy, e1), s1)"
      by (cases "streamResponse w callb s") auto
    from inv have n: "nrecv s = length (calls s)" by (simp add: loop_in_step_def)
    from streamResponse_cases [OF x]
    consider (fail) e where "recvOutcome w (nrecv s) = RecvFail e" "\<not> cont" "\<not> healthy"
        "calls s1 = calls s @ [CbErr e]"
      | (fin) "recvOutcome w (nrecv s) = RecvFrame StreamEndResponse" "\<not> cont" "healthy"
        "calls s1 = calls s @ [CbFrame StreamEndResponse]"
      | (page) g where "recvOutcome w (nrecv s) = RecvFrame g" "g \<noteq> StreamEndResponse" "healthy"
        "cont = callb (calls s @ [CbFrame g])" "calls s1 = calls s @ [CbFrame g]"
        "cont \<longrightarrow> nrecv s1 = nrecv s + 1"
      by blast
    then show "loop_report w callb r"
    proof cases
      case fail
      with body x have r: "r = ((False, e1), s1)" by simp
      have "handler_arg (recvOutcome w (nrecv s)) = CbErr e"
        using fail(1) by (simp add: handler_arg_def)
      from loop_report_intro [OF inv this fail(4), of False e1] r show ?thesis by simp
    next
      case fin
      with body x have r: "r = ((True, e1), s1)" by simp
      have "handler_arg (recvOutcome w (nrecv s)) = CbFrame StreamEndResponse"
        using fin(1) by (simp add: handler_arg_def)
      from loop_report_intro [OF inv this fin(4), of True e1] r show ?thesis by simp
    next
      case page
      have a: "handler_arg (recvOutcome w (nrecv s)) = CbFrame g"
        using page(1) by (simp add: handler_arg_def)
      show ?thesis
      proof (cases cont)
        case False
        with body x page have r: "r = ((True, e1), s1)" by simp
        from False page(4) have "\<not> callb (calls s @ [CbFrame g])" by simp
        with loop_report_intro [OF inv a page(5), of True e1] r show ?thesis by simp
      next
        case True
        with body x have run: "f w callb s1 = Some r" by simp
        have len: "length (calls s1) = Suc (length (calls s))" using page(5) by simp
        have "loop_in_step w callb s1"
          unfolding loop_in_step_def
        proof (intro conjI allI impI)
          from True page(6) n len show "nrecv s1 = length (calls s1)" by simp
          from loop_in_step_snoc(1) [OF inv] a page(5) len
          show "calls s1 = map (\<lambda>i. handler_arg (recvOutcome w i)) [0..<length (calls s1)]"
            by simp
        next
          fix i assume i: "i < length (calls s1)"
          show "\<exists>f. recvOutcome w i = RecvFrame f \<and> f \<noteq> StreamEndResponse"
          proof (cases "i < length (calls s)")
            case True
            with loop_in_step_snoc(2) [OF inv, of i] show ?thesis by simp
          next
            case False
            with i len n have "i = nrecv s" by simp
            with page(1,2) show ?thesis by simp
          qed
          show "callb (take (Suc i) (calls s1))"
          proof (cases "i < length (calls s)")
            case True
            with loop_in_step_snoc(2) [OF inv, of i "CbFrame g"] page(5) show ?thesis by simp
          next
            case False
            with i len page(5) have "take (Suc i) (calls s1) = calls s @ [CbFrame g]" by simp
            with page(4) \<open>cont\<close> show ?thesis by simp
          qed
        qed
        with IH [OF run] show ?thesis by blast
      qed
    qed
  qed
qed

text \<open>
  C9 has \<open>Scan\<close> and \<open>ScanAll\<close> return nil once the request is sent, and every
  transport or stream error after the send reach the caller through the response
  callback. The first half holds; the second fails for the errors of \<open>closeStream\<close>.
  In the run below the request is sent, the handler asks to stop at the first page, and
  the send of the \<open>EndStreamRequest\<close> fails with a transport error. The call returns
  nil, and the handler has been called once, with the page: the error is logged and
  reaches the caller by no path.
\<close>

theorem closeStream_failure_unreported:
  "sendOutcome wire_close_fails 0 = None
   \<and> sendOutcome wire_close_fails 1 = Some (TransportError ''broken pipe'')
   \<and> Scan CaseTimer CaseSem (Inr ex_conn) wire_close_fails handler_stop ex_pool =
       Some \<lparr>result = Returns None, healthy_var = Some True, returned_healthy = Some True,
             handler_calls = [CbFrame (ResponseStream ''rows'')], pool_after = ex_pool_idle\<rparr>"
proof -
  have s: "sendOutcome wire_close_fails 0 = None"
    "sendOutcome wire_close_fails 1 = Some (TransportError ''broken pipe'')"
    by (simp_all add: wire_close_fails_def)
  have loop: "stream_loop wire_close_fails handler_stop \<lparr>nsent = Suc 0, nrecv = 0, calls = []\<rparr> =
     Some ((True, Some (TransportError ''broken pipe'')),
           \<lparr>nsent = 2, nrecv = 1, calls = [CbFrame (ResponseStream ''rows'')]\<rparr>)"
    by (simp add: stream_loop.simps streamResponse_def Receive_def call_handler_def
        closeStream_def sendRequest_def wire_close_fails_def handler_stop_def)
  have "Scan CaseTimer CaseSem (Inr ex_conn) wire_close_fails handler_stop ex_pool =
       Some \<lparr>result = Returns None, healthy_var = Some True, returned_healthy = Some True,
             handler_calls = [CbFrame (ResponseStream ''rows'')], pool_after = ex_pool_idle\<rparr>"
    by (simp add: Scan_def ex_Get ex_Return sendRequest_def session_start_def s loop)
  with s show ?thesis by blast
qed

text \<open>
  C9, amended. When the acquisition has delivered a connection and the scan request has
  been sent, every run of \<open>Scan\<close> that returns, returns nil, whatever the later
  receives and the handler do. The handler has been called with the outcome of each
  receive of the response loop, in order, and with nothing else: all calls but the last
  carried a frame on which it asked for more, and the last carried a failed receive, the
  end-of-stream marker, or the frame on which it asked to stop. So a failed receive of
  the response loop always reaches the caller, as the last call of the handler, and
  \<open>healthy\<close> is false exactly then; the errors of the stream close that follows a
  request to stop (the send of the \<open>EndStreamRequest\<close>, the receives that flush the
  connection) are not among the calls. \<open>ScanAll\<close> behaves as \<open>Scan\<close>. The call
  does return when the wire at some point delivers an end-of-stream marker or a failure
  and the pool can take the connection back.
\<close>

theorem Scan_returns_nil:
  assumes "Get evB evC mk cp = Some (Inr connectn, cp1)" and "sendOutcome w 0 = None"
  shows "(\<forall>run. Scan evB evC mk w callb cp = Some run \<longrightarrow>
            result run = Returns None
          \<and> handler_calls run \<noteq> []
          \<and> handler_calls run =
              map (\<lambda>i. handler_arg (recvOutcome w i)) [0..<length (handler_calls run)]
          \<and> (\<forall>i. Suc i < length (handler_calls run) \<longrightarrow>
                (\<exists>f. recvOutcome w i = RecvFrame f \<and> f \<noteq> StreamEndResponse)
                \<and> callb (take (Suc i) (handler_calls run)))
          \<and> ((\<exists>e. last (handler_calls run) = CbErr e)
             \<or> last (handler_calls run) = CbFrame StreamEndResponse
             \<or> \<not> callb (handler_calls run))
          \<and> (healthy_var run = Some False \<longleftrightarrow> (\<exists>e. last (handler_calls run) = CbErr e)))
       \<and> ScanAll evB evC mk w callb cp = Scan evB evC mk w callb cp
       \<and> ((\<exists>k. recvOutcome w k = RecvFrame StreamEndResponse
                \<or> (\<exists>e. recvOutcome w k = RecvFail e))
            \<and> Return (Some connectn) True cp1 \<noteq> None
          \<longrightarrow> Scan evB evC mk w callb cp \<noteq> None)"
proof -
  let ?s1 = "session_start\<lparr>nsent := nsent session_start + 1\<rparr>"
  have send: "sendRequest w session_start = (None, ?s1)"
    using assms(2) by (simp add: sendRequest_def session_start_def)
  have start: "loop_in_step w callb ?s1"
    by (simp add: loop_in_step_def session_start_def)
  have scan: "Scan evB evC mk w callb cp =
      (case stream_loop w callb ?s1 of
         None \<Rightarrow> None
       | Some ((healthy, e), s2) \<Rightarrow>
           map_option
             (\<lambda>cp2. \<lparr>result = Returns None, healthy_var = Some healthy,
                      returned_healthy = Some True, handler_calls = calls s2,
                      pool_after = cp2\<rparr>)
             (Return (Some connectn) True cp1))"
    by (simp add: Scan_def assms(1) send)
  have nil: "\<forall>run. Scan evB evC mk w callb cp = Some run \<longrightarrow>
            result run = Returns None
          \<and> handler_calls run \<noteq> []
          \<and> handler_calls run =
              map (\<lambda>i. handler_arg (recvOutcome w i)) [0..<length (handler_calls run)]
          \<and> (\<forall>i. Suc i < length (handler_calls run) \<longrightarrow>
                (\<exists>f. recvOutcome w i = RecvFrame f \<and> f \<noteq> StreamEndResponse)
                \<and> callb (take (Suc i) (handler_calls run)))
          \<and> ((\<exists>e. last (handler_calls run) = CbErr e)
             \<or> last (handler_calls run) = CbFrame StreamEndResponse
             \<or> \<not> callb (handler_calls run))
          \<and> (healthy_var run = Some False \<longleftrightarrow> (\<exists>e. last (handler_calls run) = CbErr e))"
  proof (intro allI impI)
    fix run
    assume run: "Scan evB evC mk w callb cp = Some run"
    then obtain h e s2 where loop: "stream_loop w callb ?s1 = Some ((h, e), s2)"
      by (auto simp: scan split: option.splits)
    with run obtain cp2 where
      r: "run = \<lparr>result = Returns None, healthy_var = Some h, returned_healthy = Some True,
                 handler_calls = calls s2, pool_after = cp2\<rparr>"
      by (auto simp: scan)
    from stream_loop_report [OF loop] start have "loop_report w callb ((h, e), s2)" by blast
    then have rep: "calls s2 \<noteq> []"
      "calls s2 = map (\<lambda>i. handler_arg (recvOutcome w i)) [0..<length (calls s2)]"
      "\<forall>i. Suc i < length (calls s2) \<longrightarrow>
           (\<exists>f. recvOutcome w i = RecvFrame f \<and> f \<noteq> StreamEndResponse)
           \<and> callb (take (Suc i) (calls s2))"
      "(\<exists>e. last (calls s2) = CbErr e) \<or> last (calls s2) = CbFrame StreamEndResponse
        \<or> \<not> callb (calls s2)"
      "\<not> h \<longleftrightarrow> (\<exists>e. last (calls s2) = CbErr e)"
      unfolding loop_report_def fst_conv snd_conv by blast+
    have res: "result run = Returns None" and hc: "handler_calls run = calls s2"
      and hv: "healthy_var run = Some h"
      using r by simp_all
    from rep(5) hv have "healthy_var run = Some False \<longleftrightarrow> (\<exists>e. last (calls s2) = CbErr e)"
      by auto
    with res rep(1-4) show "result run = Returns None
          \<and> handler_calls run \<noteq> []
          \<and> handler_calls run =
              map (\<lambda>i. handler_arg (recvOutcome w i)) [0..<length (handler_calls run)]
          \<and> (\<forall>i. Suc i < length (handler_calls run) \<longrightarrow>
                (\<exists>f. recvOutcome w i = RecvFrame f \<and> f \<noteq> StreamEndResponse)
                \<and> callb (take (Suc i) (handler_calls run)))
          \<and> ((\<exists>e. last (handler_calls run) = CbErr e)
             \<or> last (handler_calls run) = CbFrame StreamEndResponse
             \<or> \<not> callb (handler_calls run))
          \<and> (healthy_var run = Some False \<longleftrightarrow> (\<exists>e. last (handler_calls run) = CbErr e))"
      unfolding hc by blast
  qed
  have returns: "(\<exists>k. recvOutcome w k = RecvFrame StreamEndResponse
                \<or> (\<exists>e. recvOutcome w k = RecvFail e))
            \<and> Return (Some connectn) True cp1 \<noteq> None
          \<longrightarrow> Scan evB evC mk w callb cp \<noteq> None"
  proof
    assume a: "(\<exists>k. recvOutcome w k = RecvFrame StreamEndResponse
                \<or> (\<exists>e. recvOutcome w k = RecvFail e))
            \<and> Return (Some connectn) True cp1 \<noteq> None"
    then obtain k where k: "recvOutcome w k = RecvFrame StreamEndResponse
                \<or> (\<exists>e. recvOutcome w k = RecvFail e)" by blast
    have "nrecv ?s1 \<le> k" by (simp add: session_start_def)
    from stream_loop_returns [OF this k] obtain r where "stream_loop w callb ?s1 = Some r" ..
    with a show "Scan evB evC mk w callb cp \<noteq> None"
      by (cases r) (auto simp: scan)
  qed
  from nil returns ScanAll_eq_Scan [of evB evC mk w callb cp] show ?thesis by blast
qed

lemma ex_stream_loop:
  "stream_loop wire_two_pages handler_continue \<lparr>nsent = Suc 0, nrecv = 0, calls = []\<rparr> =
     Some ((False, Some (TransportError ''connection reset'')),
           \<lparr>nsent = Suc 0, nrecv = 3,
            calls = [CbFrame (ResponseStream ''rows''), CbFrame (ResponseStream ''rows''),
                     CbErr (TransportError ''connection reset'')]\<rparr>)"
  by (simp add: stream_loop.simps streamResponse_def Receive_def call_handler_def
      wire_two_pages_def handler_continue_def)

theorem Scan_returns_nil_witness:
  "Get CaseTimer CaseSem (Inr ex_conn) ex_pool = Some (Inr ex_conn, ex_pool_borrowed)
   \<and> sendOutcome wire_two_pages 0 = None
   \<and> recvOutcome wire_two_pages 2 = RecvFail (TransportError ''connection reset'')
   \<and> Return (Some ex_conn) True ex_pool_borrowed \<noteq> None
   \<and> Scan CaseTimer CaseSem (Inr ex_conn) wire_two_pages handler_continue ex_pool =
       Some \<lparr>result = Returns None, healthy_var = Some False, returned_healthy = Some True,
             handler_calls = [CbFrame (ResponseStream ''rows''), CbFrame (ResponseStream ''rows''),
                              CbErr (TransportError ''connection reset'')],
             pool_after = ex_pool_idle\<rparr>
   \<and> ScanAll CaseTimer CaseSem (Inr ex_conn) wire_two_pages handler_continue ex_pool =
       Scan CaseTimer CaseSem (Inr ex_conn) wire_two_pages handler_continue ex_pool"
proof -
  have s: "sendOutcome wire_two_pages 0 = None"
    and f: "recvOutcome wire_two_pages 2 = RecvFail (TransportError ''connection reset'')"
    by (simp_all add: wire_two_pages_def)
  have r: "Return (Some ex_conn) True ex_pool_borrowed \<noteq> None"
    by (simp add: ex_Return)
  have run: "Scan CaseTimer CaseSem (Inr ex_conn) wire_two_pages handler_continue ex_pool =
       Some \<lparr>result = Returns None, healthy_var = Some False, returned_healthy = Some True,
             handler_calls = [CbFrame (ResponseStream ''rows''), CbFrame (ResponseStream ''rows''),
                              CbErr (TransportError ''connection reset'')],
             pool_after = ex_pool_idle\<rparr>"
    by (simp add: Scan_def ex_Get ex_Return sendRequest_def session_start_def s ex_stream_loop)
  have all: "ScanAll CaseTimer CaseSem (Inr ex_conn) wire_two_pages handler_continue ex_pool =
       Scan CaseTimer CaseSem (Inr ex_conn) wire_two_pages handler_continue ex_pool"
    using Scan_returns_nil [OF ex_Get s, of handler_continue] by blast
  from ex_Get s f r run all show ?thesis by blast
qed

subsection \<open>The deferred return\<close>

text \<open>
  Whatever happens on the wire, the deferred \<open>Return\<close> of the three client calls is
  never handed \<open>false\<close>.
\<close>

lemma Statistics_never_returns_unhealthy:
  "Statistics evB evC mk w cp = Some run \<Longrightarrow> returned_healthy run \<noteq> Some False"
  by (auto simp: Statistics_def Let_def split: option.splits sum.splits prod.splits)

lemma Scan_never_returns_unhealthy:
  "Scan evB evC mk w callb cp = Some run \<Longrightarrow> returned_healthy run \<noteq> Some False"
  by (auto simp: Scan_def Let_def split: option.splits sum.splits prod.splits)

lemma ScanAll_never_returns_unhealthy:
  "ScanAll evB evC mk w callb cp = Some run \<Longrightarrow> returned_healthy run \<noteq> Some False"
  by (simp add: ScanAll_eq_Scan Scan_never_returns_unhealthy)

text \<open>
  C1 asks that a transport failure after the acquisition hand the connection back with
  \<open>healthy = false\<close>. The code assigns \<open>false\<close> to the variable, but the deferred
  \<open>Return\<close> was given the variable's value at the \<open>defer\<close> statement. In the three
  runs below the send of a statistics request fails, the first receive of a statistics
  call fails, and the third receive of a scan fails: each time the variable ends false,
  \<open>Return\<close> is called with \<open>true\<close>, and the connection sits in the idle channel
  again, its permit held and its socket open.
\<close>

theorem transport_failure_returned_healthy:
  "Statistics CaseTimer CaseSem (Inr ex_conn) wire_send_fails ex_pool =
     Some \<lparr>result = Returns (None, Some (TransportError ''broken pipe'')),
           healthy_var = Some False, returned_healthy = Some True, handler_calls = [],
           pool_after = ex_pool_idle\<rparr>
   \<and> Statistics CaseTimer CaseSem (Inr ex_conn) wire_receive_fails ex_pool =
     Some \<lparr>result = Returns (None, Some (TransportError ''i/o timeout'')),
           healthy_var = Some False, returned_healthy = Some True, handler_calls = [],
           pool_after = ex_pool_idle\<rparr>
   \<and> Scan CaseTimer CaseSem (Inr ex_conn) wire_two_pages handler_continue ex_pool =
     Some \<lparr>result = Returns None, healthy_var = Some False, returned_healthy = Some True,
           handler_calls = [CbFrame (ResponseStream ''rows''), CbFrame (ResponseStream ''rows''),
                            CbErr (TransportError ''connection reset'')],
           pool_after = ex_pool_idle\<rparr>
   \<and> buf (connections ex_pool_idle) = [ex_conn]
   \<and> permits_held ex_pool_idle = 1
   \<and> closedSocks ex_pool_idle = []"
proof -
  have "Statistics CaseTimer CaseSem (Inr ex_conn) wire_send_fails ex_pool =
     Some \<lparr>result = Returns (None, Some (TransportError ''broken pipe'')),
           healthy_var = Some False, returned_healthy = Some True, handler_calls = [],
           pool_after = ex_pool_idle\<rparr>"
    by (simp add: statistics_defs wire_send_fails_def ex_Get ex_Return)
  moreover have "Statistics CaseTimer CaseSem (Inr ex_conn) wire_receive_fails ex_pool =
     Some \<lparr>result = Returns (None, Some (TransportError ''i/o timeout'')),
           healthy_var = Some False, returned_healthy = Some True, handler_calls = [],
           pool_after = ex_pool_idle\<rparr>"
    by (simp add: statistics_defs wire_receive_fails_def ex_Get ex_Return)
  moreover have "Scan CaseTimer CaseSem (Inr ex_conn) wire_two_pages handler_continue ex_pool =
     Some \<lparr>result = Returns None, healthy_var = Some False, returned_healthy = Some True,
           handler_calls = [CbFrame (ResponseStream ''rows''), CbFrame (ResponseStream ''rows''),
                            CbErr (TransportError ''connection reset'')],
           pool_after = ex_pool_idle\<rparr>"
    by (simp add: Scan_def ex_Get ex_Return sendRequest_def session_start_def wire_two_pages_def
        ex_stream_loop [unfolded wire_two_pages_def])
  moreover have "buf (connections ex_pool_idle) = [ex_conn]" "permits_held ex_pool_idle = 1"
    "closedSocks ex_pool_idle = []"
    by (simp_all add: ex_pool_defs permits_held_def)
  ultimately show ?thesis by blast
qed

end
